theory Spec2Isabelle
  imports Main "HOL-Library.AList"
begin

section \<open>Values, errors and the recorded world\<close>

text \<open>
  JSON values as they arrive from the captioning provider. Property order of an object is
  kept (an association list), as a JavaScript object keeps insertion order.
\<close>

datatype json =
    JNull
  | JBool bool
  | JNum int
  | JStr string
  | JArr "json list"
  | JObj "(string \<times> json) list"

text \<open>
  A thrown JavaScript error: \<open>new Error(m)\<close> is \<open>JsError ''Error'' m\<close>; errors of the
  libraries (axios, child processes, the file system) carry their own name.
\<close>

datatype js_error = JsError (err_name: string) (err_message: string)

definition new_Error :: "string \<Rightarrow> js_error" where
  "new_Error m = JsError ''Error'' m"

text \<open>\<open>String(e)\<close> for an error object follows \<open>Error.prototype.toString\<close>.\<close>

definition String_error :: "js_error \<Rightarrow> string" where
  "String_error e =
     (if err_name e = [] then err_message e
      else if err_message e = [] then err_name e
      else err_name e @ '': '' @ err_message e)"

text \<open>\<open>String(lastError)\<close> where \<open>lastError\<close> may still be \<open>undefined\<close>.\<close>

definition String_lastError :: "js_error option \<Rightarrow> string" where
  "String_lastError e = (case e of None \<Rightarrow> ''undefined'' | Some x \<Rightarrow> String_error x)"

text \<open>\<open>String(n)\<close> and template interpolation of an integer number.\<close>

fun digits :: "nat \<Rightarrow> string" where
  "digits n =
     (if n < 10 then [''0123456789'' ! n]
      else digits (n div 10) @ [''0123456789'' ! (n mod 10)])"

declare digits.simps [simp del]

definition String_int :: "int \<Rightarrow> string" where
  "String_int i = (if i < 0 then CHR ''-'' # digits (nat (- i)) else digits (nat i))"

section \<open>Transcript chunks\<close>

text \<open>
  \<open>interface TranscriptChunk { text?: string; [key: string]: unknown }\<close>: an object with an
  optional \<open>text\<close> property and opaque timing and metadata properties.
  \<open>interface TranscriptionCorrectionChunk { text: string }\<close>.
\<close>

type_synonym TranscriptChunk = "(string \<times> json) list"

datatype TranscriptionCorrectionChunk = CorrectionChunk (text_of: string)

text \<open>\<open>typeof chunk.text === "string" && chunk.text.length > 0\<close>\<close>

definition has_text :: "TranscriptChunk \<Rightarrow> bool" where
  "has_text chunk =
     (case map_of chunk ''text'' of
        Some (JStr s) \<Rightarrow> s \<noteq> []
      | _ \<Rightarrow> False)"

text \<open>\<open>({ text: chunk.text })\<close> for a chunk that passed the filter.\<close>

definition compact_chunk :: "TranscriptChunk \<Rightarrow> TranscriptionCorrectionChunk" where
  "compact_chunk chunk =
     (case map_of chunk ''text'' of
        Some (JStr s) \<Rightarrow> CorrectionChunk s
      | _ \<Rightarrow> CorrectionChunk [])"

text \<open>\<open>correctedChunks[correctionIndex]\<close>: \<open>undefined\<close> out of range.\<close>

definition at_index :: "'a list \<Rightarrow> nat \<Rightarrow> 'a option" where
  "at_index xs i = (if i < length xs then Some (xs ! i) else None)"

text \<open>
  \<open>chunk.text = correctedChunks[correctionIndex]?.text ?? chunk.text\<close>. The text of a
  corrected item is a string by its type (and by the strict JSON schema of the request),
  so \<open>??\<close> falls back to the old text only when the index is out of range.
\<close>

definition assign_text ::
  "TranscriptionCorrectionChunk list \<Rightarrow> nat \<Rightarrow> TranscriptChunk \<Rightarrow> TranscriptChunk" where
  "assign_text correctedChunks correctionIndex chunk =
     (case at_index correctedChunks correctionIndex of
        Some c \<Rightarrow> AList.update ''text'' (JStr (text_of c)) chunk
      | None \<Rightarrow>
          (case map_of chunk ''text'' of
             Some v \<Rightarrow> AList.update ''text'' v chunk
           | None \<Rightarrow> chunk))"

text \<open>
  The loop \<open>for (const chunk of transcriptCopy)\<close> with its counter \<open>correctionIndex\<close>,
  over the copied chunks.
\<close>

fun merge_loop ::
  "TranscriptionCorrectionChunk list \<Rightarrow> nat \<Rightarrow> TranscriptChunk list \<Rightarrow> TranscriptChunk list" where
  "merge_loop correctedChunks correctionIndex [] = []"
| "merge_loop correctedChunks correctionIndex (chunk # rest) =
     (if has_text chunk
      then assign_text correctedChunks correctionIndex chunk
             # merge_loop correctedChunks (Suc correctionIndex) rest
      else chunk # merge_loop correctedChunks correctionIndex rest)"

section \<open>The outside world\<close>

text \<open>
  Everything the program does to the outside is recorded in order: file system calls,
  console output, timers, requests to the captioning provider (Zapcap) and to the
  correction model (OpenAI), and child processes. The file system maps a path to the
  bytes stored there.
\<close>

type_synonym bytes = string

datatype event =
    FsAccess string
  | FsMkdir string
  | FsUnlink string
  | FsRename string string
  | ConsoleLog string
  | ConsoleError string js_error
  | Sleep int
  | Spawn string "string list"
  | ZapcapPostVideo string
  | ZapcapPostTask string string string
  | ZapcapGetTask string string
  | ZapcapPutTranscript string string "TranscriptChunk list"
  | ZapcapPostApprove string string
  | HttpGetTranscript string
  | HttpGetStream string
  | OpenAIResponsesCreate string string "TranscriptionCorrectionChunk list"

record world =
  fs :: "string \<rightharpoonup> bytes"
  trace :: "event list"

definition emit :: "event \<Rightarrow> world \<Rightarrow> world" where
  "emit e w = w\<lparr>trace := trace w @ [e]\<rparr>"

text \<open>
  \<open>interface CaptionTaskStatus { status: string; error?: string; downloadUrl?: string;
  transcript?: string }\<close>
\<close>

record CaptionTaskStatus =
  status :: string
  error :: "string option"
  downloadUrl :: "string option"
  transcript :: "string option"

text \<open>The body of the transcript URL after the optional \<open>JSON.parse\<close>: an array of chunks or not.\<close>

datatype transcript_payload = NotAnArray | ChunkArray "TranscriptChunk list"

text \<open>A response stream: the bytes it delivers and the error that may break it off.\<close>

datatype stream_body = StreamBody bytes "js_error option"

text \<open>
  What \<open>ffmpeg\<close> leaves behind: exit code 0 with the complete output file, or a failure
  with whatever is then at the output path (nothing, or an incomplete file).
\<close>

datatype ffmpeg_outcome = FfmpegDone bytes | FfmpegFailed js_error "bytes option"

text \<open>\<open>path.parse\<close> gives \<open>{ dir, name, ext }\<close>.\<close>

record parsed_path =
  dir :: string
  name :: string
  ext :: string

text \<open>
  The answers of the outside: each may depend on everything that happened before (the
  world at the time of the call). \<open>ffprobe\<close> stands for the process together with
  \<open>JSON.parse(stdout)\<close>, read at the type the source casts it to:
  \<open>{ streams?: Array<{ sample_rate?: string }> }\<close>. The functions of \<open>node:path\<close>,
  \<open>JSON.parse\<close> of the model's answer and \<open>String.prototype.toUpperCase\<close> (which follows
  the Unicode case mappings) are library code and are parameters as well.
\<close>

record env =
  post_videos :: "world \<Rightarrow> string \<Rightarrow> js_error + string option"
  post_task :: "world \<Rightarrow> string \<Rightarrow> string \<Rightarrow> string \<Rightarrow> js_error + string option"
  get_task :: "world \<Rightarrow> string \<Rightarrow> string \<Rightarrow> js_error + CaptionTaskStatus"
  get_transcript :: "world \<Rightarrow> string \<Rightarrow> js_error + transcript_payload"
  put_transcript :: "world \<Rightarrow> string \<Rightarrow> string \<Rightarrow> TranscriptChunk list \<Rightarrow> js_error option"
  post_approve :: "world \<Rightarrow> string \<Rightarrow> string \<Rightarrow> js_error option"
  responses_create ::
    "world \<Rightarrow> string \<Rightarrow> string \<Rightarrow> TranscriptionCorrectionChunk list \<Rightarrow> js_error + string option"
  JSON_parse_items :: "string \<Rightarrow> js_error + TranscriptionCorrectionChunk list option"
  get_stream :: "world \<Rightarrow> string \<Rightarrow> js_error + stream_body"
  mkdir_fails :: "world \<Rightarrow> string \<Rightarrow> js_error option"
  unlink_fails :: "world \<Rightarrow> string \<Rightarrow> js_error option"
  rename_fails :: "world \<Rightarrow> string \<Rightarrow> string \<Rightarrow> js_error option"
  ffprobe :: "world \<Rightarrow> string \<Rightarrow> js_error + string option list option"
  ffmpeg :: "world \<Rightarrow> string list \<Rightarrow> ffmpeg_outcome"
  path_parse :: "string \<Rightarrow> parsed_path"
  path_resolve :: "string \<Rightarrow> string \<Rightarrow> string"
  path_dirname :: "string \<Rightarrow> string"
  toUpperCase :: "string \<Rightarrow> string"

type_synonym 'a outcome = "(js_error + 'a) \<times> world"

text \<open>A JavaScript string used as a condition: \<open>undefined\<close> and \<open>""\<close> are falsy.\<close>

definition truthy :: "string option \<Rightarrow> bool" where
  "truthy s = (case s of None \<Rightarrow> False | Some x \<Rightarrow> x \<noteq> [])"

section \<open>The utilities fileExists, sleep and downloadFile\<close>

definition fileExists :: "string \<Rightarrow> world \<Rightarrow> bool \<times> world" where
  "fileExists filePath w = (fs w filePath \<noteq> None, emit (FsAccess filePath) w)"

definition sleep :: "int \<Rightarrow> world \<Rightarrow> world" where
  "sleep milliseconds w = emit (Sleep milliseconds) w"

definition console_log :: "string \<Rightarrow> world \<Rightarrow> world" where
  "console_log m w = emit (ConsoleLog m) w"

definition console_error :: "string \<Rightarrow> js_error \<Rightarrow> world \<Rightarrow> world" where
  "console_error m e w = emit (ConsoleError m e) w"

definition downloadFile :: "env \<Rightarrow> string \<Rightarrow> string \<Rightarrow> world \<Rightarrow> string outcome" where
  "downloadFile E url outputPath w =
     (let w1 = emit (FsMkdir (path_dirname E outputPath)) w in
      case mkdir_fails E w (path_dirname E outputPath) of
        Some e \<Rightarrow> (Inl e, w1)
      | None \<Rightarrow>
          (let w2 = emit (HttpGetStream url) w1 in
           case get_stream E w1 url of
             Inl e \<Rightarrow> (Inl e, w2)
           | Inr (StreamBody b broken) \<Rightarrow>
               (let w3 = w2\<lparr>fs := (fs w2)(outputPath \<mapsto> b)\<rparr> in
                case broken of
                  Some e \<Rightarrow> (Inl e, w3)
                | None \<Rightarrow> (Inr outputPath, w3))))"

section \<open>src/services/media.service.ts\<close>

text \<open>\<open>Number.parseInt(s, 10)\<close>: leading white space, a sign, then decimal digits; \<open>None\<close> is NaN.\<close>

definition is_space :: "char \<Rightarrow> bool" where
  "is_space c = (of_char c \<in> {9, 10, 11, 12, 13, 32 :: nat})"

definition is_digit :: "char \<Rightarrow> bool" where
  "is_digit c = (48 \<le> (of_char c :: nat) \<and> (of_char c :: nat) \<le> 57)"

definition digits_value :: "string \<Rightarrow> int" where
  "digits_value ds = foldl (\<lambda>acc c. 10 * acc + (int (of_char c) - 48)) 0 ds"

definition parseInt10 :: "string \<Rightarrow> int option" where
  "parseInt10 s =
     (let t = dropWhile is_space s;
          negative = (t \<noteq> [] \<and> hd t = CHR ''-'');
          u = (if t \<noteq> [] \<and> (hd t = CHR ''-'' \<or> hd t = CHR ''+'') then tl t else t);
          z = takeWhile is_digit u
      in if z = [] then None
         else Some (if negative then - digits_value z else digits_value z))"

definition ffprobe_args :: "string \<Rightarrow> string list" where
  "ffprobe_args filePath =
     [''-v'', ''quiet'', ''-print_format'', ''json'', ''-show_streams'', ''-select_streams'', ''a'',
      filePath]"

definition getAudioSampleRate :: "env \<Rightarrow> string \<Rightarrow> world \<Rightarrow> int outcome" where
  "getAudioSampleRate E filePath w =
     (let w1 = emit (Spawn ''ffprobe'' (ffprobe_args filePath)) w in
      case ffprobe E w filePath of
        Inl e \<Rightarrow> (Inl e, w1)
      | Inr streams \<Rightarrow>
          (let firstStream = (case streams of None \<Rightarrow> None | Some ss \<Rightarrow> at_index ss 0);
               sample_rate = (case firstStream of None \<Rightarrow> None | Some r \<Rightarrow> r)
           in if \<not> truthy sample_rate
              then (Inl (new_Error (''Audio sample_rate was not found: '' @ filePath)), w1)
              else (case parseInt10 (the sample_rate) of
                      None \<Rightarrow> (Inl (new_Error (''Audio sample_rate is invalid: '' @ filePath)), w1)
                    | Some sampleRate \<Rightarrow> (Inr sampleRate, w1))))"

definition unlink :: "env \<Rightarrow> string \<Rightarrow> world \<Rightarrow> unit outcome" where
  "unlink E p w =
     (let w1 = emit (FsUnlink p) w in
      case unlink_fails E w p of
        Some e \<Rightarrow> (Inl e, w1)
      | None \<Rightarrow>
          (if fs w p = None then (Inl (JsError ''Error'' ''ENOENT''), w1)
           else (Inr (), w1\<lparr>fs := (fs w1)(p := None)\<rparr>)))"

definition rename :: "env \<Rightarrow> string \<Rightarrow> string \<Rightarrow> world \<Rightarrow> unit outcome" where
  "rename E oldPath newPath w =
     (let w1 = emit (FsRename oldPath newPath) w in
      case rename_fails E w oldPath newPath of
        Some e \<Rightarrow> (Inl e, w1)
      | None \<Rightarrow>
          (case fs w oldPath of
             None \<Rightarrow> (Inl (JsError ''Error'' ''ENOENT''), w1)
           | Some b \<Rightarrow> (Inr (), w1\<lparr>fs := ((fs w1)(oldPath := None))(newPath \<mapsto> b)\<rparr>)))"

definition temporaryOutputPath :: "env \<Rightarrow> string \<Rightarrow> int \<Rightarrow> string" where
  "temporaryOutputPath E filePath targetRate =
     (let p = path_parse E filePath in
      path_resolve E (dir p) (name p @ ''_resampled_'' @ String_int targetRate @ ext p))"

definition ffmpeg_args :: "string \<Rightarrow> int \<Rightarrow> string \<Rightarrow> string list" where
  "ffmpeg_args filePath targetRate out =
     [''-i'', filePath, ''-c:v'', ''copy'', ''-c:a'', ''aac'', ''-ar'', String_int targetRate, ''-y'',
      out]"

definition run_ffmpeg :: "env \<Rightarrow> string \<Rightarrow> int \<Rightarrow> string \<Rightarrow> world \<Rightarrow> unit outcome" where
  "run_ffmpeg E filePath targetRate out w =
     (let w1 = emit (Spawn ''ffmpeg'' (ffmpeg_args filePath targetRate out)) w in
      case ffmpeg E w (ffmpeg_args filePath targetRate out) of
        FfmpegDone b \<Rightarrow> (Inr (), w1\<lparr>fs := (fs w1)(out \<mapsto> b)\<rparr>)
      | FfmpegFailed e left \<Rightarrow> (Inl e, w1\<lparr>fs := (fs w1)(out := left)\<rparr>))"

definition resampleAudioIfNeeded :: "env \<Rightarrow> string \<Rightarrow> int \<Rightarrow> world \<Rightarrow> string outcome" where
  "resampleAudioIfNeeded E filePath targetRate w =
     (case getAudioSampleRate E filePath w of
        (Inl e, w1) \<Rightarrow> (Inl e, w1)
      | (Inr sampleRate, w1) \<Rightarrow>
          (if sampleRate = targetRate then (Inr filePath, w1)
           else
             (case run_ffmpeg E filePath targetRate (temporaryOutputPath E filePath targetRate) w1 of
                (Inl e, w2) \<Rightarrow> (Inl e, w2)
              | (Inr _, w2) \<Rightarrow>
                  (case unlink E filePath w2 of
                     (Inl e, w3) \<Rightarrow> (Inl e, w3)
                   | (Inr _, w3) \<Rightarrow>
                       (case rename E (temporaryOutputPath E filePath targetRate) filePath w3 of
                          (Inl e, w4) \<Rightarrow> (Inl e, w4)
                        | (Inr _, w4) \<Rightarrow> (Inr filePath, w4))))))"

section \<open>class CaptionService (src/services/storage.service.ts, second part)\<close>

text \<open>
  The table \<open>languageToZapcapCode\<close> and the read \<open>languageToZapcapCode[key]\<close>. The key is
  always a result of \<open>toUpperCase\<close>; the properties inherited from \<open>Object.prototype\<close> all
  have a lower-case letter in their names, so only the table's own entries can be found.
\<close>

definition languageToZapcapCode_table :: "(string \<times> string) list" where
  "languageToZapcapCode_table =
     [(''ENGLISH'', ''en''), (''SPANISH'', ''es''), (''RUSSIAN'', ''ru''), (''FRENCH'', ''fr''),
      (''GERMAN'', ''de''), (''ITALIAN'', ''it''), (''PORTUGUESE'', ''pt'')]"

definition languageToZapcapCode :: "string \<Rightarrow> string option" where
  "languageToZapcapCode key = map_of languageToZapcapCode_table key"

text \<open>The fields of the class that the methods read.\<close>

record CaptionService =
  templateId :: string
  reviewModel :: string
  maxRetryAttempts :: int

record CreateCaptionedVideoParams =
  sourceVideoPath :: string
  outputPath :: string
  language :: string
  originalText :: string

definition uploadVideo :: "env \<Rightarrow> string \<Rightarrow> world \<Rightarrow> string outcome" where
  "uploadVideo E videoPath w =
     (let w1 = emit (ZapcapPostVideo videoPath) w in
      case post_videos E w videoPath of
        Inl e \<Rightarrow> (Inl e, w1)
      | Inr response_id \<Rightarrow>
          (if \<not> truthy response_id
           then (Inl (new_Error ''Zapcap upload response does not contain video id''), w1)
           else (Inr (the response_id), w1)))"

definition createCaptionTask ::
  "CaptionService \<Rightarrow> env \<Rightarrow> string \<Rightarrow> string \<Rightarrow> world \<Rightarrow> string outcome" where
  "createCaptionTask S E videoId lang w =
     (let languageCode = languageToZapcapCode (toUpperCase E lang) in
      if \<not> truthy languageCode
      then (Inl (new_Error (''Unsupported caption language: '' @ lang)), w)
      else
        (let w1 = emit (ZapcapPostTask videoId (templateId S) (the languageCode)) w in
         case post_task E w videoId (templateId S) (the languageCode) of
           Inl e \<Rightarrow> (Inl e, w1)
         | Inr response_taskId \<Rightarrow>
             (if \<not> truthy response_taskId
              then (Inl (new_Error ''Zapcap task response does not contain taskId''), w1)
              else (Inr (the response_taskId), w1))))"

text \<open>
  \<open>while (true) { ... }\<close>: the loop has no bound, so the function is partial; \<open>None\<close> is a
  run that never returns.
\<close>

partial_function (option) waitForTaskStatus ::
  "env \<Rightarrow> string \<Rightarrow> string \<Rightarrow> string list \<Rightarrow> string \<Rightarrow> world
    \<Rightarrow> CaptionTaskStatus outcome option" where
  "waitForTaskStatus E videoId taskId targetStatuses lang w =
     (case get_task E w videoId taskId of
        Inl e \<Rightarrow> Some (Inl e, emit (ZapcapGetTask videoId taskId) w)
      | Inr st \<Rightarrow>
          (if status st \<in> set targetStatuses
           then Some (Inr st,
                  console_log (''[captions] '' @ lang @ '': '' @ status st)
                    (emit (ZapcapGetTask videoId taskId) w))
           else if status st = ''failed''
           then Some (Inl (new_Error (''Zapcap task failed: ''
                         @ (case error st of None \<Rightarrow> ''unknown error'' | Some r \<Rightarrow> r))),
                  console_log (''[captions] '' @ lang @ '': '' @ status st)
                    (emit (ZapcapGetTask videoId taskId) w))
           else waitForTaskStatus E videoId taskId targetStatuses lang
                  (sleep 2000
                    (console_log (''[captions] '' @ lang @ '': '' @ status st)
                      (emit (ZapcapGetTask videoId taskId) w)))))"

definition waitForTranscription ::
  "env \<Rightarrow> string \<Rightarrow> string \<Rightarrow> string \<Rightarrow> world \<Rightarrow> string outcome option" where
  "waitForTranscription E videoId taskId lang w =
     (case waitForTaskStatus E videoId taskId [''transcriptionCompleted''] lang w of
        None \<Rightarrow> None
      | Some (Inl e, w1) \<Rightarrow> Some (Inl e, w1)
      | Some (Inr st, w1) \<Rightarrow>
          (if \<not> truthy (transcript st)
           then Some (Inl (new_Error ''Zapcap did not provide transcript URL''), w1)
           else Some (Inr (the (transcript st)), w1)))"

definition waitForCompletedVideo ::
  "env \<Rightarrow> string \<Rightarrow> string \<Rightarrow> string \<Rightarrow> world \<Rightarrow> string outcome option" where
  "waitForCompletedVideo E videoId taskId lang w =
     (case waitForTaskStatus E videoId taskId [''completed''] lang w of
        None \<Rightarrow> None
      | Some (Inl e, w1) \<Rightarrow> Some (Inl e, w1)
      | Some (Inr st, w1) \<Rightarrow>
          (if \<not> truthy (downloadUrl st)
           then Some (Inl (new_Error ''Zapcap did not provide download URL''), w1)
           else Some (Inr (the (downloadUrl st)), w1)))"

definition loadTranscript :: "env \<Rightarrow> string \<Rightarrow> world \<Rightarrow> TranscriptChunk list outcome" where
  "loadTranscript E transcriptUrl w =
     (let w1 = emit (HttpGetTranscript transcriptUrl) w in
      case get_transcript E w transcriptUrl of
        Inl e \<Rightarrow> (Inl e, w1)
      | Inr NotAnArray \<Rightarrow> (Inl (new_Error ''Zapcap transcript format is invalid''), w1)
      | Inr (ChunkArray chunks) \<Rightarrow> (Inr chunks, w1))"

definition correctTranscriptChunks ::
  "CaptionService \<Rightarrow> env \<Rightarrow> string \<Rightarrow> TranscriptionCorrectionChunk list \<Rightarrow> world
    \<Rightarrow> TranscriptionCorrectionChunk list outcome" where
  "correctTranscriptChunks S E original chunks w =
     (let w1 = emit (OpenAIResponsesCreate (reviewModel S) original chunks) w in
      case responses_create E w (reviewModel S) original chunks of
        Inl e \<Rightarrow> (Inl e, w1)
      | Inr output_text \<Rightarrow>
          (if \<not> truthy output_text
           then (Inl (new_Error ''OpenAI did not return corrected transcript''), w1)
           else
             (case JSON_parse_items E (the output_text) of
                Inl e \<Rightarrow> (Inl e, w1)
              | Inr None \<Rightarrow> (Inl (new_Error ''Corrected transcript response format is invalid''), w1)
              | Inr (Some items) \<Rightarrow> (Inr items, w1))))"

text \<open>\<open>({ ...chunk })\<close>: a new object with the same properties in the same order.\<close>

definition spread_chunk :: "TranscriptChunk \<Rightarrow> TranscriptChunk" where
  "spread_chunk chunk = chunk"

definition correctTranscript ::
  "CaptionService \<Rightarrow> env \<Rightarrow> string \<Rightarrow> TranscriptChunk list \<Rightarrow> world
    \<Rightarrow> TranscriptChunk list outcome" where
  "correctTranscript S E original transcript_chunks w =
     (let chunksWithText = filter has_text transcript_chunks;
          compactTranscript = map compact_chunk chunksWithText
      in case correctTranscriptChunks S E original compactTranscript w of
           (Inl e, w1) \<Rightarrow> (Inl e, w1)
         | (Inr correctedChunks, w1) \<Rightarrow>
             (if length correctedChunks \<noteq> length compactTranscript
              then (Inl (new_Error
                      ''Corrected transcript length does not match original transcript length''), w1)
              else (Inr (merge_loop correctedChunks 0 (map spread_chunk transcript_chunks)), w1)))"

definition applyTranscript ::
  "env \<Rightarrow> string \<Rightarrow> string \<Rightarrow> TranscriptChunk list \<Rightarrow> world \<Rightarrow> unit outcome" where
  "applyTranscript E videoId taskId chunks w =
     (let w1 = emit (ZapcapPutTranscript videoId taskId chunks) w in
      case put_transcript E w videoId taskId chunks of
        Some e \<Rightarrow> (Inl e, w1)
      | None \<Rightarrow> (Inr (), w1))"

definition approveTranscript :: "env \<Rightarrow> string \<Rightarrow> string \<Rightarrow> world \<Rightarrow> unit outcome" where
  "approveTranscript E videoId taskId w =
     (let w1 = emit (ZapcapPostApprove videoId taskId) w in
      case post_approve E w videoId taskId of
        Some e \<Rightarrow> (Inl e, w1)
      | None \<Rightarrow> (Inr (), w1))"

text \<open>
  Sequencing of awaited calls inside the \<open>try\<close> block: a rejected call ends the block with
  its error, a call that never returns leaves the whole block without a result.
\<close>

definition and_then ::
  "'a outcome option \<Rightarrow> ('a \<Rightarrow> world \<Rightarrow> 'b outcome option) \<Rightarrow> 'b outcome option" where
  "and_then r f =
     (case r of
        None \<Rightarrow> None
      | Some (Inl e, w) \<Rightarrow> Some (Inl e, w)
      | Some (Inr a, w) \<Rightarrow> f a w)"

definition attempt_body ::
  "CaptionService \<Rightarrow> env \<Rightarrow> CreateCaptionedVideoParams \<Rightarrow> world \<Rightarrow> string outcome option" where
  "attempt_body S E params w =
     and_then (Some (uploadVideo E (sourceVideoPath params) w)) (\<lambda>videoId w.
     and_then (Some (createCaptionTask S E videoId (language params) w)) (\<lambda>taskId w.
     and_then (waitForTranscription E videoId taskId (language params) w) (\<lambda>transcriptUrl w.
     and_then (Some (loadTranscript E transcriptUrl w)) (\<lambda>originalTranscript w.
     and_then (Some (correctTranscript S E (originalText params) originalTranscript w))
       (\<lambda>correctedTranscript w.
     and_then (Some (applyTranscript E videoId taskId correctedTranscript w)) (\<lambda>_ w.
     and_then (Some (approveTranscript E videoId taskId w)) (\<lambda>_ w.
     and_then (waitForCompletedVideo E videoId taskId (language params) w) (\<lambda>downloadUrl w.
     and_then (Some (downloadFile E downloadUrl (outputPath params) w)) (\<lambda>_ w.
     and_then (Some (resampleAudioIfNeeded E (outputPath params) 44100 w)) (\<lambda>_ w.
     Some (Inr (outputPath params), w)))))))))))"

text \<open>
  \<open>for (let attempt = 1; attempt <= this.maxRetryAttempts; attempt += 1) { try ... catch ... }\<close>
  followed by the final \<open>throw\<close>. A \<open>maxRetryAttempts\<close> that is NaN makes the loop condition
  false at once, as any value below 1 does.
\<close>

function retry_loop ::
  "CaptionService \<Rightarrow> env \<Rightarrow> CreateCaptionedVideoParams \<Rightarrow> int \<Rightarrow> js_error option \<Rightarrow> world
    \<Rightarrow> string outcome option" where
  "retry_loop S E params attempt lastError w =
     (if attempt \<le> maxRetryAttempts S then
        (case attempt_body S E params w of
           None \<Rightarrow> None
         | Some (Inr p, w1) \<Rightarrow> Some (Inr p, w1)
         | Some (Inl err, w1) \<Rightarrow>
             retry_loop S E params (attempt + 1) (Some err)
               ((if attempt < maxRetryAttempts S then sleep (2000 * attempt) else (\<lambda>x. x))
                  (console_error
                     (''[captions] Attempt '' @ String_int attempt @ '' failed for ''
                        @ language params @ '':'') err w1)))
      else Some (Inl (new_Error (''Failed to create captioned video after retries: ''
                        @ String_lastError lastError)), w))"
  by pat_completeness auto
termination
  by (relation "measure (\<lambda>(S, E, params, attempt, lastError, w). nat (maxRetryAttempts S + 1 - attempt))")
     auto

declare retry_loop.simps [simp del]

definition createCaptionedVideo ::
  "CaptionService \<Rightarrow> env \<Rightarrow> CreateCaptionedVideoParams \<Rightarrow> world \<Rightarrow> string outcome option" where
  "createCaptionedVideo S E params w =
     (case fileExists (outputPath params) w of
        (True, w1) \<Rightarrow>
          Some (Inr (outputPath params),
                console_log (''[captions] File already exists: '' @ outputPath params) w1)
      | (False, w1) \<Rightarrow> retry_loop S E params 1 None w1)"

section \<open>correctTranscript on a store of objects and arrays\<close>

text \<open>
  JavaScript chunks are objects and the transcript is an array of references to them. To
  speak about what a call changes, objects and arrays live in a store: an address is an
  index, \<open>new\<close> appends. Property values are immutable here (the method never writes
  into a nested value); the corrected items come out of \<open>JSON.parse\<close> and are only read.
\<close>

record heap =
  objects :: "TranscriptChunk list"
  arrays :: "nat list list"

definition new_object :: "TranscriptChunk \<Rightarrow> heap \<Rightarrow> nat \<times> heap" where
  "new_object props h = (length (objects h), h\<lparr>objects := objects h @ [props]\<rparr>)"

definition new_array :: "nat list \<Rightarrow> heap \<Rightarrow> nat \<times> heap" where
  "new_array elems h = (length (arrays h), h\<lparr>arrays := arrays h @ [elems]\<rparr>)"

text \<open>\<open>elems.map((chunk) => ({ ... }))\<close>: one new object per element, made from the element.\<close>

fun map_new_objects ::
  "(TranscriptChunk \<Rightarrow> TranscriptChunk) \<Rightarrow> nat list \<Rightarrow> heap \<Rightarrow> nat list \<times> heap" where
  "map_new_objects f [] h = ([], h)"
| "map_new_objects f (r # rs) h =
     (case new_object (f (objects h ! r)) h of
        (a, h1) \<Rightarrow>
          (case map_new_objects f rs h1 of
             (rest, h2) \<Rightarrow> (a # rest, h2)))"

text \<open>\<open>({ text: chunk.text })\<close> as an object.\<close>

definition compact_object :: "TranscriptChunk \<Rightarrow> TranscriptChunk" where
  "compact_object chunk = [(''text'', JStr (text_of (compact_chunk chunk)))]"

text \<open>The loop over \<open>transcriptCopy\<close>: \<open>chunk.text = ...\<close> writes into the object the
  element refers to.\<close>

fun merge_loop_heap ::
  "TranscriptionCorrectionChunk list \<Rightarrow> nat \<Rightarrow> nat list \<Rightarrow> heap \<Rightarrow> heap" where
  "merge_loop_heap correctedChunks correctionIndex [] h = h"
| "merge_loop_heap correctedChunks correctionIndex (r # rs) h =
     (if has_text (objects h ! r)
      then merge_loop_heap correctedChunks (Suc correctionIndex) rs
             (h\<lparr>objects := (objects h)[r := assign_text correctedChunks correctionIndex
                                               (objects h ! r)]\<rparr>)
      else merge_loop_heap correctedChunks correctionIndex rs h)"

definition correctTranscript_heap ::
  "CaptionService \<Rightarrow> env \<Rightarrow> string \<Rightarrow> nat \<Rightarrow> heap \<Rightarrow> world
    \<Rightarrow> (js_error + nat) \<times> heap \<times> world" where
  "correctTranscript_heap S E original transcript_ref h w =
     (case new_array (filter (\<lambda>r. has_text (objects h ! r)) (arrays h ! transcript_ref)) h of
        (chunksWithText, h1) \<Rightarrow>
     (case map_new_objects compact_object (arrays h1 ! chunksWithText) h1 of
        (compact_refs, h2) \<Rightarrow>
     (case new_array compact_refs h2 of
        (compactTranscript, h3) \<Rightarrow>
     (case correctTranscriptChunks S E original
             (map (\<lambda>r. compact_chunk (objects h3 ! r)) (arrays h3 ! compactTranscript)) w of
        (Inl e, w1) \<Rightarrow> (Inl e, h3, w1)
      | (Inr correctedChunks, w1) \<Rightarrow>
          (if length correctedChunks \<noteq> length (arrays h3 ! compactTranscript)
           then (Inl (new_Error
                   ''Corrected transcript length does not match original transcript length''),
                 h3, w1)
           else
             (case map_new_objects spread_chunk (arrays h3 ! transcript_ref) h3 of
                (copy_refs, h4) \<Rightarrow>
             (case new_array copy_refs h4 of
                (transcriptCopy, h5) \<Rightarrow>
                  (Inr transcriptCopy,
                   merge_loop_heap correctedChunks 0 (arrays h5 ! transcriptCopy) h5,
                   w1))))))))"

text \<open>The chunks an array of the store refers to.\<close>

definition read_array :: "heap \<Rightarrow> nat \<Rightarrow> TranscriptChunk list" where
  "read_array h a = map (\<lambda>r. objects h ! r) (arrays h ! a)"

section \<open>Reading the recorded trace\<close>

text \<open>The requests that leave the machine: to the captioning provider, to the correction
  model, and the two downloads.\<close>

fun remote_call :: "event \<Rightarrow> bool" where
  "remote_call (ZapcapPostVideo p) = True"
| "remote_call (ZapcapPostTask v t l) = True"
| "remote_call (ZapcapGetTask v t) = True"
| "remote_call (ZapcapPutTranscript v t c) = True"
| "remote_call (ZapcapPostApprove v t) = True"
| "remote_call (HttpGetTranscript u) = True"
| "remote_call (HttpGetStream u) = True"
| "remote_call (OpenAIResponsesCreate m t c) = True"
| "remote_call e = False"

fun sleep_durations :: "event list \<Rightarrow> int list" where
  "sleep_durations [] = []"
| "sleep_durations (Sleep d # es) = d # sleep_durations es"
| "sleep_durations (e # es) = sleep_durations es"

text \<open>Status probes and sleeps, the two events that make the rhythm of the polling loop.\<close>

fun probe_or_sleep :: "event \<Rightarrow> bool" where
  "probe_or_sleep (ZapcapGetTask v t) = True"
| "probe_or_sleep (Sleep d) = True"
| "probe_or_sleep e = False"

text \<open>The events added between two worlds.\<close>

definition new_events :: "world \<Rightarrow> world \<Rightarrow> event list" where
  "new_events w w' = drop (length (trace w)) (trace w')"

text \<open>
  One turn of the polling loop that neither returns nor throws: the status is fetched and
  logged, then the loop sleeps. \<open>pending\<close> says that the probe made in a world returns a
  status that is neither a target status nor \<open>failed\<close>.
\<close>

definition pending :: "env \<Rightarrow> string \<Rightarrow> string \<Rightarrow> string list \<Rightarrow> world \<Rightarrow> bool" where
  "pending E videoId taskId targetStatuses w =
     (case get_task E w videoId taskId of
        Inl e \<Rightarrow> False
      | Inr st \<Rightarrow> status st \<notin> set targetStatuses \<and> status st \<noteq> ''failed'')"

definition poll_step :: "env \<Rightarrow> string \<Rightarrow> string \<Rightarrow> string \<Rightarrow> world \<Rightarrow> world" where
  "poll_step E videoId taskId lang w =
     sleep 2000
       (console_log
          (''[captions] '' @ lang @ '': ''
             @ (case get_task E w videoId taskId of Inl e \<Rightarrow> [] | Inr st \<Rightarrow> status st))
          (emit (ZapcapGetTask videoId taskId) w))"

text \<open>
  The trace of a run of the retry loop in which every attempt ends at the upload: one
  upload and one logged failure per attempt, and a sleep after every attempt but the last.
\<close>

fun failed_attempts_trace :: "string \<Rightarrow> string \<Rightarrow> int \<Rightarrow> int \<Rightarrow> js_error list \<Rightarrow> event list" where
  "failed_attempts_trace src lang m k [] = []"
| "failed_attempts_trace src lang m k (e # es) =
     [ZapcapPostVideo src,
      ConsoleError (''[captions] Attempt '' @ String_int k @ '' failed for '' @ lang @ '':'') e]
     @ (if k < m then [Sleep (2000 * k)] else [])
     @ failed_attempts_trace src lang m (k + 1) es"

section \<open>Example environments\<close>

text \<open>Upper case for names written with the letters a to z; other bytes are kept.\<close>

definition upper_char :: "char \<Rightarrow> char" where
  "upper_char c =
     (case map_of (zip ''abcdefghijklmnopqrstuvwxyz'' ''ABCDEFGHIJKLMNOPQRSTUVWXYZ'') c of
        Some u \<Rightarrow> u
      | None \<Rightarrow> c)"

definition ascii_upper :: "string \<Rightarrow> string" where
  "ascii_upper s = map upper_char s"

text \<open>An outside in which every request, process and file operation fails.\<close>

definition offline_env :: env where
  "offline_env =
     \<lparr>post_videos = (\<lambda>w p. Inl (JsError ''AxiosError'' ''Network Error'')),
      post_task = (\<lambda>w v t l. Inl (JsError ''AxiosError'' ''Network Error'')),
      get_task = (\<lambda>w v t. Inl (JsError ''AxiosError'' ''Network Error'')),
      get_transcript = (\<lambda>w u. Inl (JsError ''AxiosError'' ''Network Error'')),
      put_transcript = (\<lambda>w v t c. Some (JsError ''AxiosError'' ''Network Error'')),
      post_approve = (\<lambda>w v t. Some (JsError ''AxiosError'' ''Network Error'')),
      responses_create = (\<lambda>w m t c. Inl (JsError ''APIConnectionError'' ''Connection error.'')),
      JSON_parse_items = (\<lambda>s. Inl (JsError ''SyntaxError'' ''Unexpected end of JSON input'')),
      get_stream = (\<lambda>w u. Inl (JsError ''AxiosError'' ''Network Error'')),
      mkdir_fails = (\<lambda>w d. Some (JsError ''Error'' ''EACCES'')),
      unlink_fails = (\<lambda>w p. Some (JsError ''Error'' ''EACCES'')),
      rename_fails = (\<lambda>w a b. Some (JsError ''Error'' ''EACCES'')),
      ffprobe = (\<lambda>w p. Inl (JsError ''Error'' ''ffprobe exited with code 1: '')),
      ffmpeg = (\<lambda>w a. FfmpegFailed (JsError ''Error'' ''ffmpeg exited with code 1: '') None),
      path_parse = (\<lambda>p. \<lparr>dir = ''/out'', name = p, ext = ''.mp4''\<rparr>),
      path_resolve = (\<lambda>d f. d @ ''/'' @ f),
      path_dirname = (\<lambda>p. ''/out''),
      toUpperCase = ascii_upper\<rparr>"

definition service0 :: CaptionService where
  "service0 = \<lparr>templateId = ''tpl'', reviewModel = ''o3'', maxRetryAttempts = 3\<rparr>"

definition world0 :: world where
  "world0 = \<lparr>fs = Map.empty, trace = []\<rparr>"

text \<open>The correction model answers with the given items.\<close>

definition correcting_env :: "TranscriptionCorrectionChunk list \<Rightarrow> env" where
  "correcting_env items =
     offline_env\<lparr>responses_create := (\<lambda>w m t c. Inr (Some ''{}'')),
                  JSON_parse_items := (\<lambda>s. Inr (Some items))\<rparr>"

definition transcript0 :: "TranscriptChunk list" where
  "transcript0 =
     [[(''text'', JStr ''helo''), (''start'', JNum 0)], [(''start'', JNum 1)],
      [(''start'', JNum 2), (''text'', JStr ''wrold'')]]"


text \<open>A file that \<open>ffprobe\<close> reports at 44100 Hz.\<close>

definition at_target_env :: env where
  "at_target_env = offline_env\<lparr>ffprobe := (\<lambda>w p. Inr (Some [Some ''44100'']))\<rparr>"

definition downloaded_world :: world where
  "downloaded_world = \<lparr>fs = [''/out/captioned_EN.mp4'' \<mapsto> ''original bytes''], trace = []\<rparr>"

text \<open>The transcript of the example as an array of three objects in a store.\<close>

definition heap0 :: heap where
  "heap0 = \<lparr>objects = transcript0, arrays = [[0, 1, 2]]\<rparr>"

definition params0 :: CreateCaptionedVideoParams where
  "params0 =
     \<lparr>sourceVideoPath = ''/in/rendered_EN.mp4'', outputPath = ''/out/captioned_EN.mp4'',
      language = ''ENGLISH'', originalText = ''hello world''\<rparr>"

text \<open>A remote job that stays in the state \<open>rendering\<close> for ever.\<close>

definition stuck_env :: env where
  "stuck_env =
     offline_env\<lparr>get_task := (\<lambda>w v t.
        Inr \<lparr>status = ''rendering'', error = None, downloadUrl = None, transcript = None\<rparr>)\<rparr>"

text \<open>A remote job that is \<open>transcribing\<close> at the first probe and \<open>failed\<close> afterwards.\<close>

definition failing_job_env :: env where
  "failing_job_env =
     offline_env\<lparr>get_task := (\<lambda>w v t.
        Inr (if trace w = []
             then \<lparr>status = ''transcribing'', error = None, downloadUrl = None, transcript = None\<rparr>
             else \<lparr>status = ''failed'', error = Some ''audio track missing'', downloadUrl = None,
                   transcript = None\<rparr>))\<rparr>"

text \<open>A remote job that is \<open>rendering\<close> at the first probe and \<open>completed\<close> afterwards.\<close>

definition completing_job_env :: env where
  "completing_job_env =
     offline_env\<lparr>get_task := (\<lambda>w v t.
        Inr (if trace w = []
             then \<lparr>status = ''rendering'', error = None, downloadUrl = None, transcript = None\<rparr>
             else \<lparr>status = ''completed'', error = None, downloadUrl = Some ''https://cdn/out.mp4'',
                   transcript = None\<rparr>))\<rparr>"

text \<open>Uploads succeed; every other request fails.\<close>

definition uploading_env :: env where
  "uploading_env = offline_env\<lparr>post_videos := (\<lambda>w p. Inr (Some ''vid''))\<rparr>"

definition klingon_params :: CreateCaptionedVideoParams where
  "klingon_params =
     \<lparr>sourceVideoPath = ''/in/rendered_KL.mp4'', outputPath = ''/out/captioned_KL.mp4'',
      language = ''Klingon'', originalText = ''nuqneH''\<rparr>"

section \<open>Transcript correction: the merge\<close>

lemma length_merge_loop: "length (merge_loop cs k ts) = length ts"
  by (induction ts arbitrary: k) auto

lemma merge_loop_nth:
  "i < length ts \<Longrightarrow>
   merge_loop cs k ts ! i =
     (if has_text (ts ! i) then assign_text cs (k + length (filter has_text (take i ts))) (ts ! i)
      else ts ! i)"
proof (induction ts arbitrary: i k)
  case Nil
  then show ?case by simp
next
  case (Cons c rest)
  show ?case
  proof (cases i)
    case 0
    then show ?thesis by simp
  next
    case (Suc j)
    with Cons.prems have "j < length rest" by simp
    from Cons.IH[OF this] Suc show ?thesis by simp
  qed
qed

lemma map_spread_chunk: "map spread_chunk ts = ts"
  by (induction ts) (simp_all add: spread_chunk_def)

lemma filter_take_less:
  assumes "i < length ts" "P (ts ! i)"
  shows "length (filter P (take i ts)) < length (filter P ts)"
proof -
  have "ts = take i ts @ ts ! i # drop (Suc i) ts"
    using assms(1) by (simp add: id_take_nth_drop)
  then have "filter P ts = filter P (take i ts) @ ts ! i # filter P (drop (Suc i) ts)"
    using assms(2) by (metis filter.simps(2) filter_append)
  then show ?thesis by simp
qed

lemma has_text_key: "has_text c \<Longrightarrow> ''text'' \<in> fst ` set c"
  by (auto simp: has_text_def split: option.splits dest: map_of_SomeD intro: rev_image_eqI)

lemma assign_text_in_range:
  "k < length cs \<Longrightarrow> assign_text cs k c = AList.update ''text'' (JStr (text_of (cs ! k))) c"
  by (simp add: assign_text_def at_index_def)

lemma merge_loop_texts:
  "k + length (filter has_text ts) \<le> length cs \<Longrightarrow>
   map (\<lambda>p. map_of (snd p) ''text'') (filter (\<lambda>p. has_text (fst p)) (zip ts (merge_loop cs k ts)))
     = map (\<lambda>c. Some (JStr (text_of c))) (take (length (filter has_text ts)) (drop k cs))"
proof (induction ts arbitrary: k)
  case Nil
  then show ?case by simp
next
  case (Cons c rest)
  show ?case
  proof (cases "has_text c")
    case True
    with Cons.prems have k: "k < length cs" and r: "Suc k + length (filter has_text rest) \<le> length cs"
      by simp_all
    have d: "drop k cs = cs ! k # drop (Suc k) cs"
      using k by (simp add: Cons_nth_drop_Suc)
    show ?thesis using True Cons.IH[OF r] k d
      by (simp add: assign_text_in_range AList.update_conv')
  next
    case False
    with Cons.prems have "k + length (filter has_text rest) \<le> length cs" by simp
    from Cons.IH[OF this] False show ?thesis by simp
  qed
qed

text \<open>
  C1. When the correction step returns as many items as there are chunks with non-empty
  text, \<open>correctTranscript\<close> returns a list of the original length and order: a chunk
  without non-empty text is returned as it was; a chunk with non-empty text has its
  \<open>text\<close> property set, in place, to the text of the next corrected item (the item whose
  index is the number of chunks with text before it), its property names and order and
  every other property value are kept; read in order, the new texts are exactly the
  corrected items. The chunks \<open>[{text:"helo"}, {}, {text:"wrold"}]\<close> with the corrections
  \<open>[{text:"hello"}, {text:"world"}]\<close> give \<open>[{text:"hello"}, {}, {text:"world"}]\<close>.
\<close>

theorem correctTranscript_merge:
  assumes "correctTranscriptChunks S E original (map compact_chunk (filter has_text ts)) w
             = (Inr cs, w1)"
      and "length cs = length (filter has_text ts)"
  shows "\<exists>out. correctTranscript S E original ts w = (Inr out, w1)
     \<and> length out = length ts
     \<and> (\<forall>i<length ts. \<not> has_text (ts ! i) \<longrightarrow> out ! i = ts ! i)
     \<and> (\<forall>i<length ts. has_text (ts ! i) \<longrightarrow>
           out ! i = AList.update ''text''
                       (JStr (text_of (cs ! length (filter has_text (take i ts))))) (ts ! i)
         \<and> map_of (out ! i) ''text''
             = Some (JStr (text_of (cs ! length (filter has_text (take i ts)))))
         \<and> map fst (out ! i) = map fst (ts ! i)
         \<and> (\<forall>k. k \<noteq> ''text'' \<longrightarrow> map_of (out ! i) k = map_of (ts ! i) k))
     \<and> map (\<lambda>p. map_of (snd p) ''text'') (filter (\<lambda>p. has_text (fst p)) (zip ts out))
         = map (\<lambda>c. Some (JStr (text_of c))) cs
     \<and> merge_loop [CorrectionChunk ''hello'', CorrectionChunk ''world''] 0
         [[(''text'', JStr ''helo'')], [], [(''text'', JStr ''wrold'')]]
         = [[(''text'', JStr ''hello'')], [], [(''text'', JStr ''world'')]]"
proof -
  let ?out = "merge_loop cs 0 ts"
  have res: "correctTranscript S E original ts w = (Inr ?out, w1)"
    using assms by (simp add: correctTranscript_def map_spread_chunk)
  have len: "length ?out = length ts" by (rule length_merge_loop)
  have keep: "\<forall>i<length ts. \<not> has_text (ts ! i) \<longrightarrow> ?out ! i = ts ! i"
    by (simp add: merge_loop_nth)
  have repl: "?out ! i = AList.update ''text''
                  (JStr (text_of (cs ! length (filter has_text (take i ts))))) (ts ! i)"
    if "i < length ts" "has_text (ts ! i)" for i
  proof -
    have "length (filter has_text (take i ts)) < length cs"
      using filter_take_less[of i ts has_text] that assms(2) by simp
    then show ?thesis using that by (simp add: merge_loop_nth assign_text_in_range)
  qed
  have seq: "map (\<lambda>p. map_of (snd p) ''text'') (filter (\<lambda>p. has_text (fst p)) (zip ts ?out))
         = map (\<lambda>c. Some (JStr (text_of c))) cs"
    using merge_loop_texts[of 0 ts cs] assms(2) by simp
  have ex: "merge_loop [CorrectionChunk ''hello'', CorrectionChunk ''world''] 0
         [[(''text'', JStr ''helo'')], [], [(''text'', JStr ''wrold'')]]
         = [[(''text'', JStr ''hello'')], [], [(''text'', JStr ''world'')]]"
    by (simp add: has_text_def assign_text_def at_index_def)
  have props: "\<forall>i<length ts. has_text (ts ! i) \<longrightarrow>
           ?out ! i = AList.update ''text''
                       (JStr (text_of (cs ! length (filter has_text (take i ts))))) (ts ! i)
         \<and> map_of (?out ! i) ''text''
             = Some (JStr (text_of (cs ! length (filter has_text (take i ts)))))
         \<and> map fst (?out ! i) = map fst (ts ! i)
         \<and> (\<forall>k. k \<noteq> ''text'' \<longrightarrow> map_of (?out ! i) k = map_of (ts ! i) k)"
    using repl has_text_key by (simp add: AList.update_conv' AList.update_keys)
  show ?thesis using res len keep props seq ex by blast
qed

theorem correctTranscript_merge_witness:
  "correctTranscriptChunks service0 (correcting_env [CorrectionChunk ''hello'', CorrectionChunk ''world''])
       ''hello world'' (map compact_chunk (filter has_text transcript0)) world0
     = (Inr [CorrectionChunk ''hello'', CorrectionChunk ''world''],
        emit (OpenAIResponsesCreate ''o3'' ''hello world''
                [CorrectionChunk ''helo'', CorrectionChunk ''wrold'']) world0)
   \<and> length [CorrectionChunk ''hello'', CorrectionChunk ''world'']
       = length (filter has_text transcript0)
   \<and> (\<exists>out. correctTranscript service0
              (correcting_env [CorrectionChunk ''hello'', CorrectionChunk ''world''])
              ''hello world'' transcript0 world0
         = (Inr out, emit (OpenAIResponsesCreate ''o3'' ''hello world''
                [CorrectionChunk ''helo'', CorrectionChunk ''wrold'']) world0)
       \<and> length out = 3
       \<and> out ! 0 = [(''text'', JStr ''hello''), (''start'', JNum 0)]
       \<and> out ! 1 = [(''start'', JNum 1)]
       \<and> out ! 2 = [(''start'', JNum 2), (''text'', JStr ''world'')])"
proof -
  let ?cs = "[CorrectionChunk ''hello'', CorrectionChunk ''world'']"
  let ?w1 = "emit (OpenAIResponsesCreate ''o3'' ''hello world''
                [CorrectionChunk ''helo'', CorrectionChunk ''wrold'']) world0"
  have h1: "correctTranscriptChunks service0 (correcting_env ?cs) ''hello world''
              (map compact_chunk (filter has_text transcript0)) world0 = (Inr ?cs, ?w1)"
    by (simp add: correctTranscriptChunks_def correcting_env_def offline_env_def service0_def
        truthy_def transcript0_def has_text_def compact_chunk_def)
  have h2: "length ?cs = length (filter has_text transcript0)"
    by (simp add: transcript0_def has_text_def)
  from correctTranscript_merge[OF h1 h2] obtain out where
    r: "correctTranscript service0 (correcting_env ?cs) ''hello world'' transcript0 world0 = (Inr out, ?w1)"
    and l: "length out = length transcript0"
    and k: "\<forall>i<length transcript0. \<not> has_text (transcript0 ! i) \<longrightarrow> out ! i = transcript0 ! i"
    and p: "\<forall>i<length transcript0. has_text (transcript0 ! i) \<longrightarrow>
           out ! i = AList.update ''text''
                       (JStr (text_of (?cs ! length (filter has_text (take i transcript0))))) (transcript0 ! i)"
    by blast
  have l3: "length transcript0 = 3" by (simp add: transcript0_def)
  have o0: "out ! 0 = [(''text'', JStr ''hello''), (''start'', JNum 0)]"
    using p[rule_format, of 0] by (simp add: transcript0_def has_text_def)
  have o1: "out ! 1 = [(''start'', JNum 1)]"
    using k[rule_format, of 1] by (simp add: transcript0_def has_text_def)
  have o2: "out ! 2 = [(''start'', JNum 2), (''text'', JStr ''world'')]"
    using p[rule_format, of 2] by (simp add: transcript0_def has_text_def numeral_2_eq_2)
  show ?thesis using h1 h2 r l l3 o0 o1 o2 by auto
qed

text \<open>
  C2. When the correction step returns a list whose length differs from the number of
  chunks with non-empty text that were sent to it, \<open>correctTranscript\<close> throws the error
  "Corrected transcript length does not match original transcript length" (the shape
  error of the specification) and returns no merged list; whatever follows it inside the
  attempt is not run.
\<close>

theorem correctTranscript_shape_mismatch:
  assumes "correctTranscriptChunks S E original (map compact_chunk (filter has_text ts)) w
             = (Inr cs, w1)"
      and "length cs \<noteq> length (filter has_text ts)"
  shows "correctTranscript S E original ts w
           = (Inl (new_Error ''Corrected transcript length does not match original transcript length''),
              w1)
       \<and> (\<forall>f. and_then (Some (correctTranscript S E original ts w)) f
           = (Some (Inl (new_Error
                ''Corrected transcript length does not match original transcript length''), w1)
              :: 'b outcome option))"
  using assms by (simp add: correctTranscript_def and_then_def)

theorem correctTranscript_shape_mismatch_witness:
  "correctTranscriptChunks service0 (correcting_env [CorrectionChunk ''hello''])
       ''hello world'' (map compact_chunk (filter has_text transcript0)) world0
     = (Inr [CorrectionChunk ''hello''],
        emit (OpenAIResponsesCreate ''o3'' ''hello world''
                [CorrectionChunk ''helo'', CorrectionChunk ''wrold'']) world0)
   \<and> length [CorrectionChunk ''hello''] \<noteq> length (filter has_text transcript0)
   \<and> correctTranscript service0 (correcting_env [CorrectionChunk ''hello'']) ''hello world''
       transcript0 world0
     = (Inl (new_Error ''Corrected transcript length does not match original transcript length''),
        emit (OpenAIResponsesCreate ''o3'' ''hello world''
                [CorrectionChunk ''helo'', CorrectionChunk ''wrold'']) world0)"
proof -
  let ?cs = "[CorrectionChunk ''hello'']"
  let ?w1 = "emit (OpenAIResponsesCreate ''o3'' ''hello world''
                [CorrectionChunk ''helo'', CorrectionChunk ''wrold'']) world0"
  have h1: "correctTranscriptChunks service0 (correcting_env ?cs) ''hello world''
              (map compact_chunk (filter has_text transcript0)) world0 = (Inr ?cs, ?w1)"
    by (simp add: correctTranscriptChunks_def correcting_env_def offline_env_def service0_def
        truthy_def transcript0_def has_text_def compact_chunk_def)
  have h2: "length ?cs \<noteq> length (filter has_text transcript0)"
    by (simp add: transcript0_def has_text_def)
  from correctTranscript_shape_mismatch[OF h1 h2] h1 h2 show ?thesis by blast
qed

section \<open>correctTranscript leaves its input alone\<close>

lemma upt_cons_shift: "n # [Suc n..<Suc (n + k)] = [n..<Suc (n + k)]"
  using upt_conv_Cons[of n "Suc (n + k)"] by (simp del: upt_Suc)

lemma map_new_objects_shape:
  "map_new_objects f rs h = (refs, h') \<Longrightarrow>
   refs = [length (objects h)..<length (objects h) + length rs]
   \<and> arrays h' = arrays h
   \<and> (\<exists>news. length news = length rs \<and> objects h' = objects h @ news
        \<and> ((\<forall>r\<in>set rs. r < length (objects h)) \<longrightarrow> news = map (\<lambda>r. f (objects h ! r)) rs))"
proof (induction rs arbitrary: h refs h')
  case Nil
  then show ?case by simp
next
  case (Cons r rs)
  define h1 where "h1 = h\<lparr>objects := objects h @ [f (objects h ! r)]\<rparr>"
  obtain rest h2 where m: "map_new_objects f rs h1 = (rest, h2)" by (cases "map_new_objects f rs h1")
  from Cons.prems m have refs: "refs = length (objects h) # rest" and h': "h' = h2"
    by (simp_all add: new_object_def h1_def)
  from Cons.IH[OF m] obtain news where
    rest: "rest = [length (objects h1)..<length (objects h1) + length rs]"
    and ar: "arrays h2 = arrays h1"
    and ln: "length news = length rs"
    and ob: "objects h2 = objects h1 @ news"
    and wf: "(\<forall>r\<in>set rs. r < length (objects h1)) \<longrightarrow> news = map (\<lambda>r. f (objects h1 ! r)) rs"
    by blast
  have l1: "length (objects h1) = Suc (length (objects h))" by (simp add: h1_def)
  have a: "refs = [length (objects h)..<length (objects h) + length (r # rs)]"
    using refs rest l1 by (simp add: upt_cons_shift del: upt_Suc)
  have b: "arrays h' = arrays h" using ar h' by (simp add: h1_def)
  have c: "objects h' = objects h @ (f (objects h ! r) # news)"
    using ob h' by (simp add: h1_def)
  have d: "f (objects h ! r) # news = map (\<lambda>r. f (objects h ! r)) (r # rs)"
    if w: "\<forall>x\<in>set (r # rs). x < length (objects h)"
  proof -
    from w have "\<forall>x\<in>set rs. x < length (objects h1)" by (simp add: l1 less_Suc_eq)
    with wf have "news = map (\<lambda>r. f (objects h1 ! r)) rs" by blast
    also have "\<dots> = map (\<lambda>r. f (objects h ! r)) rs"
      using w by (simp add: h1_def nth_append)
    finally show ?thesis by simp
  qed
  show ?case using a b c d ln
    by (intro conjI exI[of _ "f (objects h ! r) # news"]) auto
qed

lemma merge_loop_heap_spec:
  "distinct rs \<Longrightarrow> \<forall>r\<in>set rs. r < length (objects h) \<Longrightarrow>
   arrays (merge_loop_heap cs i rs h) = arrays h
   \<and> length (objects (merge_loop_heap cs i rs h)) = length (objects h)
   \<and> (\<forall>a. a \<notin> set rs \<longrightarrow> objects (merge_loop_heap cs i rs h) ! a = objects h ! a)
   \<and> map (\<lambda>r. objects (merge_loop_heap cs i rs h) ! r) rs
       = merge_loop cs i (map (\<lambda>r. objects h ! r) rs)"
proof (induction rs arbitrary: i h)
  case Nil
  then show ?case by simp
next
  case (Cons r rs)
  from Cons.prems have dr: "distinct rs" and nr: "r \<notin> set rs"
    and rl: "r < length (objects h)" and rsl: "\<forall>x\<in>set rs. x < length (objects h)"
    by simp_all
  show ?case
  proof (cases "has_text (objects h ! r)")
    case False
    from Cons.IH[OF dr rsl, of i] False nr show ?thesis by simp
  next
    case True
    define h1 where "h1 = h\<lparr>objects := (objects h)[r := assign_text cs i (objects h ! r)]\<rparr>"
    have l1: "length (objects h1) = length (objects h)" by (simp add: h1_def)
    have rsl1: "\<forall>x\<in>set rs. x < length (objects h1)" using rsl l1 by simp
    have step: "merge_loop_heap cs i (r # rs) h = merge_loop_heap cs (Suc i) rs h1"
      using True by (simp add: h1_def)
    from Cons.IH[OF dr rsl1, of "Suc i"] have
      ar: "arrays (merge_loop_heap cs (Suc i) rs h1) = arrays h1"
      and ln: "length (objects (merge_loop_heap cs (Suc i) rs h1)) = length (objects h1)"
      and fr: "\<forall>a. a \<notin> set rs \<longrightarrow> objects (merge_loop_heap cs (Suc i) rs h1) ! a = objects h1 ! a"
      and mp: "map (\<lambda>r. objects (merge_loop_heap cs (Suc i) rs h1) ! r) rs
                 = merge_loop cs (Suc i) (map (\<lambda>r. objects h1 ! r) rs)"
      by blast+
    have neq: "r \<noteq> x" if "x \<in> set rs" for x using nr that by blast
    have same: "map (\<lambda>x. objects h1 ! x) rs = map (\<lambda>x. objects h ! x) rs"
      using neq by (simp add: h1_def)
    have atr: "objects (merge_loop_heap cs (Suc i) rs h1) ! r = assign_text cs i (objects h ! r)"
      using fr nr rl by (simp add: h1_def)
    have other: "\<forall>a. a \<notin> set (r # rs) \<longrightarrow>
                   objects (merge_loop_heap cs (Suc i) rs h1) ! a = objects h ! a"
      using fr by (auto simp: h1_def)
    have ar1: "arrays h1 = arrays h" by (simp add: h1_def)
    show ?thesis
      unfolding step using ar ln other mp atr True l1 ar1 by (simp add: same)
  qed
qed

lemma map_nth_new: "map (\<lambda>r. (xs @ ys) ! r) [length xs..<length xs + length ys] = ys"
  by (rule nth_equalityI) simp_all

lemma map_nth_new_eq:
  "os = xs @ ys \<Longrightarrow> rs = [length xs..<length xs + length ys] \<Longrightarrow> map (\<lambda>r. os ! r) rs = ys"
  by (simp add: map_nth_new)

lemma compact_chunk_compact_object: "compact_chunk (compact_object c) = compact_chunk c"
  by (simp add: compact_object_def compact_chunk_def)

lemma filter_read:
  "filter has_text (map (\<lambda>r. objects h ! r) elems)
     = map (\<lambda>r. objects h ! r) (filter (\<lambda>r. has_text (objects h ! r)) elems)"
  by (simp add: filter_map comp_def)

lemma correctTranscript_value:
  "correctTranscriptChunks S E original (map compact_chunk (filter has_text ts)) w = (res, w1) \<Longrightarrow>
   correctTranscript S E original ts w =
     (case res of
        Inl e \<Rightarrow> (Inl e, w1)
      | Inr cs \<Rightarrow>
          if length cs \<noteq> length (filter has_text ts)
          then (Inl (new_Error
                  ''Corrected transcript length does not match original transcript length''), w1)
          else (Inr (merge_loop cs 0 ts), w1))"
  by (simp add: correctTranscript_def map_spread_chunk split: sum.splits)

text \<open>
  C10. On the store, whatever the outcome of \<open>correctTranscript\<close>, every object and every
  array that existed before the call is unchanged afterwards, so the caller's transcript
  array and each chunk object it refers to are as they were. When the call returns, the
  result is an array that did not exist before and that refers only to objects that did
  not exist before, each once. For a transcript array whose elements are objects of the
  store, the chunks read from the result are exactly what \<open>correctTranscript\<close> on values
  returns, so the replaced texts are in the copies only.
\<close>

theorem correctTranscript_heap_keeps_input:
  "case correctTranscript_heap S E original t h w of
     (r, h', w') \<Rightarrow>
       take (length (objects h)) (objects h') = objects h
     \<and> take (length (arrays h)) (arrays h') = arrays h
     \<and> (\<forall>out. r = Inr out \<longrightarrow>
           length (arrays h) \<le> out \<and> out < length (arrays h')
         \<and> distinct (arrays h' ! out)
         \<and> (\<forall>a\<in>set (arrays h' ! out). length (objects h) \<le> a \<and> a < length (objects h')))
     \<and> (t < length (arrays h) \<and> (\<forall>a\<in>set (arrays h ! t). a < length (objects h)) \<longrightarrow>
           read_array h' t = read_array h t
         \<and> correctTranscript S E original (read_array h t) w = (map_sum id (read_array h') r, w'))"
proof -
  let ?elems = "arrays h ! t"
  let ?cwt = "filter (\<lambda>r. has_text (objects h ! r)) ?elems"
  let ?h1 = "h\<lparr>arrays := arrays h @ [?cwt]\<rparr>"
  let ?wf = "t < length (arrays h) \<and> (\<forall>a\<in>set ?elems. a < length (objects h))"
  let ?ts = "read_array h t"
  obtain compact_refs h2 where m2: "map_new_objects compact_object ?cwt ?h1 = (compact_refs, h2)"
    by (cases "map_new_objects compact_object ?cwt ?h1")
  from map_new_objects_shape[OF m2] obtain news2 where
    cr: "compact_refs = [length (objects h)..<length (objects h) + length ?cwt]"
    and a2: "arrays h2 = arrays h @ [?cwt]"
    and l2: "length news2 = length ?cwt"
    and o2: "objects h2 = objects h @ news2"
    and wf2: "(\<forall>r\<in>set ?cwt. r < length (objects h))
                \<longrightarrow> news2 = map (\<lambda>r. compact_object (objects h ! r)) ?cwt"
    by auto
  let ?h3 = "h2\<lparr>arrays := arrays h2 @ [compact_refs]\<rparr>"
  let ?arg = "map (\<lambda>r. compact_chunk (objects h2 ! r)) compact_refs"
  obtain res w1 where call: "correctTranscriptChunks S E original ?arg w = (res, w1)"
    by (cases "correctTranscriptChunks S E original ?arg w")
  have o3: "objects ?h3 = objects h @ news2" using o2 by simp
  have a3: "arrays ?h3 = arrays h @ [?cwt, compact_refs]" using a2 by simp
  have lcr: "length compact_refs = length ?cwt" using cr by simp
  have old3: "objects ?h3 ! r = objects h ! r" if "r < length (objects h)" for r
    using that by (simp add: o2 nth_append)
  have arr3: "arrays ?h3 ! t = ?elems" if "t < length (arrays h)"
    using that by (simp add: a2 nth_append)
  have read3: "read_array ?h3 t = ?ts" if ?wf
    using that old3 arr3 unfolding read_array_def by (intro map_cong) auto
  have argeq: "?arg = map compact_chunk (filter has_text ?ts)" if ?wf
  proof -
    from that have "\<forall>r\<in>set ?cwt. r < length (objects h)" by simp
    with wf2 have n2: "news2 = map (\<lambda>r. compact_object (objects h ! r)) ?cwt" by blast
    have e1: "?arg = map compact_chunk (map (\<lambda>r. objects h2 ! r) compact_refs)"
      by (simp add: comp_def)
    have e2: "map (\<lambda>r. objects h2 ! r) compact_refs = news2"
      unfolding o2 cr l2[symmetric] by (rule map_nth_new)
    have "?arg = map compact_chunk news2"
      unfolding e1 e2 by (rule refl)
    also have "\<dots> = map (\<lambda>r. compact_chunk (objects h ! r)) ?cwt"
      by (simp add: n2 compact_chunk_compact_object)
    also have "\<dots> = map compact_chunk (filter has_text ?ts)"
      unfolding read_array_def by (simp add: filter_read)
    finally show ?thesis .
  qed
  have lts: "length (filter has_text ?ts) = length ?cwt"
    unfolding read_array_def by (simp add: filter_read)
  have pure_run: "correctTranscript S E original ?ts w =
     (case res of
        Inl e \<Rightarrow> (Inl e, w1)
      | Inr cs \<Rightarrow>
          if length cs \<noteq> length (filter has_text ?ts)
          then (Inl (new_Error
                  ''Corrected transcript length does not match original transcript length''), w1)
          else (Inr (merge_loop cs 0 ?ts), w1))" if ?wf
    using correctTranscript_value[of S E original ?ts w res w1] call argeq[OF that] by simp
  have frame3: "take (length (objects h)) (objects ?h3) = objects h
     \<and> take (length (arrays h)) (arrays ?h3) = arrays h"
    by (simp add: o2 a2)
  show ?thesis
  proof (cases res)
    case (Inl e)
    have r: "correctTranscript_heap S E original t h w = (Inl e, ?h3, w1)"
      using m2 call Inl by (simp add: correctTranscript_heap_def new_array_def)
    have v: "correctTranscript S E original ?ts w = (map_sum id (read_array ?h3) (Inl e), w1)"
      if ?wf using pure_run[OF that] Inl by simp
    show ?thesis unfolding r using frame3 read3 v by simp
  next
    case (Inr cs)
    show ?thesis
    proof (cases "length cs \<noteq> length compact_refs")
      case True
      let ?err = "new_Error ''Corrected transcript length does not match original transcript length''"
      have r: "correctTranscript_heap S E original t h w = (Inl ?err, ?h3, w1)"
        using m2 call Inr True by (simp add: correctTranscript_heap_def new_array_def)
      have v: "correctTranscript S E original ?ts w = (map_sum id (read_array ?h3) (Inl ?err), w1)"
        if ?wf using pure_run[OF that] Inr True lcr lts by simp
      show ?thesis unfolding r using frame3 read3 v by simp
    next
      case False
      obtain copy_refs h4 where
        m4: "map_new_objects spread_chunk (arrays ?h3 ! t) ?h3 = (copy_refs, h4)"
        by (cases "map_new_objects spread_chunk (arrays ?h3 ! t) ?h3")
      let ?h5 = "h4\<lparr>arrays := arrays h4 @ [copy_refs]\<rparr>"
      let ?h6 = "merge_loop_heap cs 0 copy_refs ?h5"
      let ?out = "length (arrays h4)"
      have r: "correctTranscript_heap S E original t h w = (Inr ?out, ?h6, w1)"
        using m2 call Inr False m4 by (simp add: correctTranscript_heap_def new_array_def)
      from map_new_objects_shape[OF m4] obtain news4 where
        c4: "copy_refs = [length (objects ?h3)..<length (objects ?h3) + length (arrays ?h3 ! t)]"
        and a4: "arrays h4 = arrays ?h3"
        and l4: "length news4 = length (arrays ?h3 ! t)"
        and o4: "objects h4 = objects ?h3 @ news4"
        and wf4: "(\<forall>r\<in>set (arrays ?h3 ! t). r < length (objects ?h3))
                    \<longrightarrow> news4 = map (\<lambda>r. spread_chunk (objects ?h3 ! r)) (arrays ?h3 ! t)"
        by blast
      have o5: "objects ?h5 = objects h @ news2 @ news4" using o4 o2 by simp
      have a5: "arrays ?h5 = arrays h @ [?cwt, compact_refs, copy_refs]" using a4 a2 by simp
      have c5: "copy_refs = [length (objects h @ news2)..<length (objects h @ news2) + length news4]"
        using c4 l4 o2 by simp
      have d: "distinct copy_refs" using c4 by simp
      have b: "\<forall>r\<in>set copy_refs. r < length (objects ?h5)" using c5 o5 by simp
      from merge_loop_heap_spec[OF d b, of cs 0] have
        a6: "arrays ?h6 = arrays ?h5"
        and l6: "length (objects ?h6) = length (objects ?h5)"
        and f6: "\<forall>a. a \<notin> set copy_refs \<longrightarrow> objects ?h6 ! a = objects ?h5 ! a"
        and m6: "map (\<lambda>r. objects ?h6 ! r) copy_refs
                   = merge_loop cs 0 (map (\<lambda>r. objects ?h5 ! r) copy_refs)"
        by blast+
      have old6: "objects ?h6 ! a = objects h ! a" if "a < length (objects h)" for a
      proof -
        from that have "a \<notin> set copy_refs" using c5 by simp
        with f6 have "objects ?h6 ! a = objects ?h5 ! a" by blast
        then show ?thesis using that by (simp add: o5 nth_append)
      qed
      have c1: "take (length (objects h)) (objects ?h6) = objects h"
        using old6 l6 o5 by (intro nth_equalityI) simp_all
      have c2: "take (length (arrays h)) (arrays ?h6) = arrays h"
        using a6 a5 by simp
      have out: "?out = Suc (Suc (length (arrays h)))" using a4 a2 by simp
      have at_out: "arrays ?h6 ! ?out = copy_refs"
        unfolding a6 by simp
      have c3: "length (arrays h) \<le> ?out \<and> ?out < length (arrays ?h6)
         \<and> distinct (arrays ?h6 ! ?out)
         \<and> (\<forall>a\<in>set (arrays ?h6 ! ?out). length (objects h) \<le> a \<and> a < length (objects ?h6))"
        unfolding at_out using out d a6 a5 c5 l6 o5 by simp
      have c4': "read_array ?h6 t = ?ts
         \<and> correctTranscript S E original ?ts w = (map_sum id (read_array ?h6) (Inr ?out), w1)"
        if wf: ?wf
      proof -
        have at_t: "arrays ?h6 ! t = ?elems"
          using wf a6 a5 by (simp add: nth_append)
        have rd: "read_array ?h6 t = ?ts"
          unfolding read_array_def at_t using wf old6 by (intro map_cong) auto
        have "\<forall>r\<in>set (arrays ?h3 ! t). r < length (objects ?h3)"
        proof
          fix r assume "r \<in> set (arrays ?h3 ! t)"
          then have "r \<in> set ?elems" using wf arr3 by simp
          then have "r < length (objects h)" using wf by blast
          then show "r < length (objects ?h3)" by (simp add: o2)
        qed
        with wf4 have "news4 = map (\<lambda>r. spread_chunk (objects ?h3 ! r)) (arrays ?h3 ! t)" by blast
        also have "\<dots> = map (\<lambda>r. objects h ! r) ?elems"
          using wf arr3 old3 by (simp add: spread_chunk_def cong: map_cong)
        finally have n4: "news4 = ?ts" by (simp add: read_array_def)
        have o5': "objects ?h5 = (objects h @ news2) @ news4" using o5 by simp
        have "map (\<lambda>r. objects ?h5 ! r) copy_refs = news4"
          by (rule map_nth_new_eq[OF o5' c5])
        with m6 n4 have "read_array ?h6 ?out = merge_loop cs 0 ?ts"
          unfolding read_array_def at_out by simp
        moreover have "correctTranscript S E original ?ts w = (Inr (merge_loop cs 0 ?ts), w1)"
          using pure_run[OF wf] Inr False lcr lts by simp
        ultimately show ?thesis using rd by simp
      qed
      show ?thesis unfolding r using c1 c2 c3 c4' by simp
    qed
  qed
qed

lemma heap0_fields:
  "objects heap0 = transcript0" "arrays heap0 = [[0, 1, 2]]"
  by (simp_all add: heap0_def)

lemma correcting_env_fields:
  "responses_create (correcting_env items) w m t c = Inr (Some ''{}'')"
  "JSON_parse_items (correcting_env items) s = Inr (Some items)"
  by (simp_all add: correcting_env_def offline_env_def)

lemma example_call:
  "correctTranscriptChunks service0 (correcting_env items) original chunks w
     = (Inr items, emit (OpenAIResponsesCreate ''o3'' original chunks) w)"
  by (simp add: correctTranscriptChunks_def correcting_env_fields truthy_def service0_def)

lemma example_heap_run:
  "correctTranscript_heap service0
      (correcting_env [CorrectionChunk ''hello'', CorrectionChunk ''world''])
      ''hello world'' 0 heap0 world0
   = (Inr 3,
      \<lparr>objects = transcript0 @
         [[(''text'', JStr ''helo'')], [(''text'', JStr ''wrold'')],
          [(''text'', JStr ''hello''), (''start'', JNum 0)], [(''start'', JNum 1)],
          [(''start'', JNum 2), (''text'', JStr ''world'')]],
       arrays = [[0, 1, 2], [0, 2], [3, 4], [5, 6, 7]]\<rparr>,
      emit (OpenAIResponsesCreate ''o3'' ''hello world''
              [CorrectionChunk ''helo'', CorrectionChunk ''wrold'']) world0)"
  by (simp add: correctTranscript_heap_def heap0_def transcript0_def new_array_def new_object_def
      has_text_def compact_object_def compact_chunk_def example_call spread_chunk_def
      assign_text_def at_index_def eval_nat_numeral)

theorem correctTranscript_heap_keeps_input_witness:
  "0 < length (arrays heap0)
   \<and> list_all (\<lambda>a. a < length (objects heap0)) (arrays heap0 ! 0)
   \<and> fst (correctTranscript_heap service0
              (correcting_env [CorrectionChunk ''hello'', CorrectionChunk ''world''])
              ''hello world'' 0 heap0 world0) = Inr 3
   \<and> read_array (fst (snd (correctTranscript_heap service0
              (correcting_env [CorrectionChunk ''hello'', CorrectionChunk ''world''])
              ''hello world'' 0 heap0 world0))) 0 = transcript0
   \<and> take 3 (objects (fst (snd (correctTranscript_heap service0
              (correcting_env [CorrectionChunk ''hello'', CorrectionChunk ''world''])
              ''hello world'' 0 heap0 world0)))) = transcript0
   \<and> read_array (fst (snd (correctTranscript_heap service0
              (correcting_env [CorrectionChunk ''hello'', CorrectionChunk ''world''])
              ''hello world'' 0 heap0 world0))) 3
       = [[(''text'', JStr ''hello''), (''start'', JNum 0)], [(''start'', JNum 1)],
          [(''start'', JNum 2), (''text'', JStr ''world'')]]"
proof -
  let ?E = "correcting_env [CorrectionChunk ''hello'', CorrectionChunk ''world'']"
  let ?H = "\<lparr>objects = transcript0 @
         [[(''text'', JStr ''helo'')], [(''text'', JStr ''wrold'')],
          [(''text'', JStr ''hello''), (''start'', JNum 0)], [(''start'', JNum 1)],
          [(''start'', JNum 2), (''text'', JStr ''world'')]],
       arrays = [[0, 1, 2], [0, 2], [3, 4], [5, 6, 7]]\<rparr>"
  have h1: "0 < length (arrays heap0)" by (simp add: heap0_fields)
  have h2: "\<forall>a\<in>set (arrays heap0 ! 0). a < length (objects heap0)"
    by (simp add: heap0_fields transcript0_def)
  have h2': "list_all (\<lambda>a. a < length (objects heap0)) (arrays heap0 ! 0)"
    using h2 by (simp add: list_all_iff)
  have l3: "length (objects heap0) = 3" by (simp add: heap0_fields transcript0_def)
  have rd0: "read_array heap0 0 = transcript0"
    by (simp add: read_array_def heap0_fields transcript0_def)
  from correctTranscript_heap_keeps_input[where S = service0 and E = ?E
      and original = "''hello world''" and t = 0 and h = heap0 and w = world0]
  have "take (length (objects heap0)) (objects ?H) = objects heap0
        \<and> read_array ?H 0 = read_array heap0 0"
    unfolding example_heap_run using h1 h2 by simp
  then have a: "take 3 (objects ?H) = transcript0" and b: "read_array ?H 0 = transcript0"
    using l3 rd0 by (simp_all add: heap0_fields)
  have c: "read_array ?H 3
       = [[(''text'', JStr ''hello''), (''start'', JNum 0)], [(''start'', JNum 1)],
          [(''start'', JNum 2), (''text'', JStr ''world'')]]"
    by (simp add: read_array_def transcript0_def eval_nat_numeral)
  show ?thesis unfolding example_heap_run using h1 h2' a b c by simp
qed

section \<open>The media normalizer\<close>

lemma snd_getAudioSampleRate:
  "snd (getAudioSampleRate E filePath w) = emit (Spawn ''ffprobe'' (ffprobe_args filePath)) w"
  by (simp add: getAudioSampleRate_def Let_def split: sum.splits option.splits)










text \<open>
  C8. When the probed sample rate equals the target rate, \<open>resampleAudioIfNeeded\<close> returns
  the same path after the single \<open>ffprobe\<close> call: no \<open>ffmpeg\<close>, no unlink, no rename, and
  the file system (every path, so also the temporary sibling path) is unchanged.
\<close>

theorem resample_noop:
  assumes "fst (getAudioSampleRate E filePath w) = Inr targetRate"
  shows "resampleAudioIfNeeded E filePath targetRate w
           = (Inr filePath, w\<lparr>trace := trace w @ [Spawn ''ffprobe'' (ffprobe_args filePath)]\<rparr>)
       \<and> fs (snd (resampleAudioIfNeeded E filePath targetRate w)) = fs w"
proof -
  have "getAudioSampleRate E filePath w
          = (Inr targetRate, emit (Spawn ''ffprobe'' (ffprobe_args filePath)) w)"
    using assms snd_getAudioSampleRate[of E filePath w] by (simp add: prod_eq_iff)
  then show ?thesis by (simp add: resampleAudioIfNeeded_def emit_def)
qed

theorem resample_noop_witness:
  "fst (getAudioSampleRate at_target_env ''/out/captioned_EN.mp4'' downloaded_world) = Inr 44100
   \<and> resampleAudioIfNeeded at_target_env ''/out/captioned_EN.mp4'' 44100 downloaded_world
       = (Inr ''/out/captioned_EN.mp4'',
          \<lparr>fs = [''/out/captioned_EN.mp4'' \<mapsto> ''original bytes''],
           trace = [Spawn ''ffprobe'' (ffprobe_args ''/out/captioned_EN.mp4'')]\<rparr>)"
proof -
  have h: "fst (getAudioSampleRate at_target_env ''/out/captioned_EN.mp4'' downloaded_world)
             = Inr 44100"
    by (simp add: getAudioSampleRate_def at_target_env_def offline_env_def at_index_def
        truthy_def parseInt10_def is_space_def is_digit_def digits_value_def)
  show ?thesis using resample_noop[OF h] h by (simp add: downloaded_world_def)
qed




section \<open>The polling loop\<close>

lemma poll_unfold:
  assumes "pending E v t ts w"
  shows "waitForTaskStatus E v t ts l w = waitForTaskStatus E v t ts l (poll_step E v t l w)"
  using assms
  by (subst waitForTaskStatus.simps) (auto simp: pending_def poll_step_def split: sum.splits)

lemma poll_iter:
  "(\<forall>k<n. pending E v t ts ((poll_step E v t l ^^ k) w)) \<Longrightarrow>
   waitForTaskStatus E v t ts l w = waitForTaskStatus E v t ts l ((poll_step E v t l ^^ n) w)"
proof (induction n)
  case 0
  then show ?case by simp
next
  case (Suc n)
  then have "waitForTaskStatus E v t ts l w = waitForTaskStatus E v t ts l ((poll_step E v t l ^^ n) w)"
    by simp
  also have "\<dots> = waitForTaskStatus E v t ts l (poll_step E v t l ((poll_step E v t l ^^ n) w))"
    using Suc.prems by (intro poll_unfold) simp
  finally show ?case by simp
qed

lemma trace_poll_step:
  "trace (poll_step E v t l w)
     = trace w @ [ZapcapGetTask v t,
                  ConsoleLog (''[captions] '' @ l @ '': ''
                     @ (case get_task E w v t of Inl e \<Rightarrow> [] | Inr st \<Rightarrow> status st)),
                  Sleep 2000]"
  by (simp add: poll_step_def sleep_def console_log_def emit_def)

lemma fs_poll_step: "fs (poll_step E v t l w) = fs w"
  by (simp add: poll_step_def sleep_def console_log_def emit_def)

lemma fs_poll_iter: "fs ((poll_step E v t l ^^ n) w) = fs w"
  by (induction n) (simp_all add: fs_poll_step)

lemma sleep_durations_append:
  "sleep_durations (xs @ ys) = sleep_durations xs @ sleep_durations ys"
  by (induction xs rule: sleep_durations.induct) simp_all

lemma poll_iter_trace:
  "\<exists>evs. trace ((poll_step E v t l ^^ n) w) = trace w @ evs
     \<and> sleep_durations evs = replicate n 2000
     \<and> length (filter (\<lambda>e. e = ZapcapGetTask v t) evs) = n
     \<and> length evs = 3 * n"
proof (induction n)
  case 0
  then show ?case by simp
next
  case (Suc n)
  then obtain evs where e: "trace ((poll_step E v t l ^^ n) w) = trace w @ evs"
     "sleep_durations evs = replicate n 2000"
     "length (filter (\<lambda>e. e = ZapcapGetTask v t) evs) = n" "length evs = 3 * n"
    by blast
  let ?wn = "(poll_step E v t l ^^ n) w"
  let ?new = "[ZapcapGetTask v t,
                  ConsoleLog (''[captions] '' @ l @ '': ''
                     @ (case get_task E ?wn v t of Inl e \<Rightarrow> [] | Inr st \<Rightarrow> status st)),
                  Sleep 2000]"
  have "trace ((poll_step E v t l ^^ Suc n) w) = trace w @ (evs @ ?new)"
    by (simp add: trace_poll_step e(1))
  moreover have "sleep_durations (evs @ ?new) = replicate (Suc n) 2000"
    by (simp add: sleep_durations_append e(2) replicate_append_same)
  moreover have "length (filter (\<lambda>e. e = ZapcapGetTask v t) (evs @ ?new)) = Suc n"
    by (simp add: e(3))
  moreover have "length (evs @ ?new) = 3 * Suc n"
    by (simp add: e(4))
  ultimately show ?case by blast
qed

lemma poll_forever_None:
  assumes "\<forall>n. pending E v t ts ((poll_step E v t l ^^ n) w)"
  shows "waitForTaskStatus E v t ts l ((poll_step E v t l ^^ n) w) = None"
proof (rule ccontr)
  assume "waitForTaskStatus E v t ts l ((poll_step E v t l ^^ n) w) \<noteq> None"
  then obtain y where y: "waitForTaskStatus E v t ts l ((poll_step E v t l ^^ n) w) = Some y"
    by blast
  have "\<not> (E = E \<and> v = v \<and> t = t \<and> ts = ts \<and> l = l
            \<and> (\<exists>k. (poll_step E v t l ^^ n) w = (poll_step E v t l ^^ k) w))"
  proof (rule waitForTaskStatus.raw_induct
      [where P = "\<lambda>E' v' t' ts' l' w' y'.
          \<not> (E' = E \<and> v' = v \<and> t' = t \<and> ts' = ts \<and> l' = l
              \<and> (\<exists>k. w' = (poll_step E v t l ^^ k) w))", OF _ y], goal_cases)
    case (1 f E' v' t' ts' l' w' y')
    show ?case
    proof
      assume a: "E' = E \<and> v' = v \<and> t' = t \<and> ts' = ts \<and> l' = l
                 \<and> (\<exists>k. w' = (poll_step E v t l ^^ k) w)"
      then obtain k where k: "w' = (poll_step E v t l ^^ k) w" by blast
      have p: "pending E v t ts w'" using assms k by simp
      from 1(2) a p have "f E v t ts l (poll_step E v t l w') = Some y'"
        by (auto simp: pending_def poll_step_def split: sum.splits)
      moreover have "poll_step E v t l w' = (poll_step E v t l ^^ Suc k) w"
        using k by simp
      ultimately show False using 1(1)[of E v t ts l "poll_step E v t l w'" y'] by blast
    qed
  qed
  then show False by blast
qed

text \<open>
  C6. In a polling run whose first \<open>n\<close> probes were pending and whose next probe returns
  the status \<open>failed\<close> (which is not among the target statuses, as in both callers), the
  loop throws "Zapcap task failed: " followed by the reason of the provider (or "unknown
  error" when the provider gave none) right after logging that status: the probe that
  saw \<open>failed\<close> is the last one, \<open>n + 1\<close> probes in all, and no sleep follows it.
\<close>

theorem poll_failed_aborts:
  assumes "\<forall>k<n. pending E videoId taskId targetStatuses ((poll_step E videoId taskId lang ^^ k) w)"
      and "get_task E ((poll_step E videoId taskId lang ^^ n) w) videoId taskId = Inr st"
      and "status st = ''failed''"
      and "''failed'' \<notin> set targetStatuses"
  shows "\<exists>w'. waitForTaskStatus E videoId taskId targetStatuses lang w
           = Some (Inl (new_Error (''Zapcap task failed: ''
                          @ (case error st of None \<Rightarrow> ''unknown error'' | Some r \<Rightarrow> r))), w')
       \<and> trace w' = trace ((poll_step E videoId taskId lang ^^ n) w)
                       @ [ZapcapGetTask videoId taskId, ConsoleLog (''[captions] '' @ lang @ '': failed'')]
       \<and> length (filter (\<lambda>e. e = ZapcapGetTask videoId taskId) (new_events w w')) = Suc n
       \<and> fs w' = fs w"
proof -
  let ?wn = "(poll_step E videoId taskId lang ^^ n) w"
  let ?w' = "console_log (''[captions] '' @ lang @ '': '' @ status st)
                    (emit (ZapcapGetTask videoId taskId) ?wn)"
  have "waitForTaskStatus E videoId taskId targetStatuses lang w
          = waitForTaskStatus E videoId taskId targetStatuses lang ?wn"
    using assms(1) by (rule poll_iter)
  also have "\<dots> = Some (Inl (new_Error (''Zapcap task failed: ''
                          @ (case error st of None \<Rightarrow> ''unknown error'' | Some r \<Rightarrow> r))), ?w')"
    using assms(2,3,4) by (subst waitForTaskStatus.simps) simp
  finally have r: "waitForTaskStatus E videoId taskId targetStatuses lang w
          = Some (Inl (new_Error (''Zapcap task failed: ''
                          @ (case error st of None \<Rightarrow> ''unknown error'' | Some r \<Rightarrow> r))), ?w')" .
  have t: "trace ?w' = trace ?wn
             @ [ZapcapGetTask videoId taskId, ConsoleLog (''[captions] '' @ lang @ '': failed'')]"
    using assms(3) by (simp add: console_log_def emit_def)
  obtain evs where evs: "trace ?wn = trace w @ evs"
      "length (filter (\<lambda>e. e = ZapcapGetTask videoId taskId) evs) = n"
    using poll_iter_trace[where E=E and v=videoId and t=taskId and l=lang and n=n and w=w] by blast
  have c: "length (filter (\<lambda>e. e = ZapcapGetTask videoId taskId) (new_events w ?w')) = Suc n"
    unfolding new_events_def t evs(1) using evs(2) by simp
  have f: "fs ?w' = fs w"
    by (simp add: console_log_def emit_def fs_poll_iter)
  show ?thesis using r t c f by blast
qed

lemma concat_replicate_snoc: "concat (replicate n x) @ x = x @ concat (replicate n x)"
  by (induction n) simp_all

lemma poll_iter_rhythm:
  "\<exists>evs. trace ((poll_step E v t l ^^ n) w) = trace w @ evs
     \<and> filter probe_or_sleep evs = concat (replicate n [ZapcapGetTask v t, Sleep 2000])"
proof (induction n)
  case 0
  then show ?case by simp
next
  case (Suc n)
  then obtain evs where e: "trace ((poll_step E v t l ^^ n) w) = trace w @ evs"
     "filter probe_or_sleep evs = concat (replicate n [ZapcapGetTask v t, Sleep 2000])"
    by blast
  let ?wn = "(poll_step E v t l ^^ n) w"
  let ?new = "[ZapcapGetTask v t,
                  ConsoleLog (''[captions] '' @ l @ '': ''
                     @ (case get_task E ?wn v t of Inl e \<Rightarrow> [] | Inr st \<Rightarrow> status st)),
                  Sleep 2000]"
  have "trace ((poll_step E v t l ^^ Suc n) w) = trace w @ (evs @ ?new)"
    by (simp add: trace_poll_step e(1))
  moreover have "filter probe_or_sleep (evs @ ?new)
                   = concat (replicate (Suc n) [ZapcapGetTask v t, Sleep 2000])"
    using concat_replicate_snoc[of n "[ZapcapGetTask v t, Sleep 2000]"] by (simp add: e(2))
  ultimately show ?case by blast
qed

lemma poll_target_returns:
  assumes "\<forall>k<n. pending E videoId taskId targetStatuses ((poll_step E videoId taskId lang ^^ k) w)"
      and "get_task E ((poll_step E videoId taskId lang ^^ n) w) videoId taskId = Inr st"
      and "status st \<in> set targetStatuses"
  shows "\<exists>w'. waitForTaskStatus E videoId taskId targetStatuses lang w = Some (Inr st, w')
       \<and> filter probe_or_sleep (new_events w w')
           = concat (replicate n [ZapcapGetTask videoId taskId, Sleep 2000])
             @ [ZapcapGetTask videoId taskId]
       \<and> sleep_durations (new_events w w') = replicate n 2000
       \<and> length (filter (\<lambda>e. e = ZapcapGetTask videoId taskId) (new_events w w')) = Suc n
       \<and> fs w' = fs w"
proof -
  let ?wn = "(poll_step E videoId taskId lang ^^ n) w"
  let ?w' = "console_log (''[captions] '' @ lang @ '': '' @ status st)
                    (emit (ZapcapGetTask videoId taskId) ?wn)"
  have "waitForTaskStatus E videoId taskId targetStatuses lang w
          = waitForTaskStatus E videoId taskId targetStatuses lang ?wn"
    using assms(1) by (rule poll_iter)
  also have "\<dots> = Some (Inr st, ?w')"
    using assms(2,3) by (subst waitForTaskStatus.simps) simp
  finally have r: "waitForTaskStatus E videoId taskId targetStatuses lang w = Some (Inr st, ?w')" .
  have t: "trace ?w' = trace ?wn
             @ [ZapcapGetTask videoId taskId, ConsoleLog (''[captions] '' @ lang @ '': '' @ status st)]"
    by (simp add: console_log_def emit_def)
  obtain evs where evs: "trace ?wn = trace w @ evs"
      "sleep_durations evs = replicate n 2000"
      "length (filter (\<lambda>e. e = ZapcapGetTask videoId taskId) evs) = n"
    using poll_iter_trace[where E=E and v=videoId and t=taskId and l=lang and n=n and w=w] by blast
  obtain evs' where evs': "trace ?wn = trace w @ evs'"
      "filter probe_or_sleep evs' = concat (replicate n [ZapcapGetTask videoId taskId, Sleep 2000])"
    using poll_iter_rhythm[where E=E and v=videoId and t=taskId and l=lang and n=n and w=w] by blast
  have same: "evs' = evs" using evs(1) evs'(1) by simp
  have ne: "new_events w ?w' = evs @ [ZapcapGetTask videoId taskId,
                 ConsoleLog (''[captions] '' @ lang @ '': '' @ status st)]"
    unfolding new_events_def t evs(1) by simp
  have a: "filter probe_or_sleep (new_events w ?w')
           = concat (replicate n [ZapcapGetTask videoId taskId, Sleep 2000])
             @ [ZapcapGetTask videoId taskId]"
    unfolding ne using evs'(2) same by simp
  have b: "sleep_durations (new_events w ?w') = replicate n 2000"
    unfolding ne using evs(2) by (simp add: sleep_durations_append)
  have c: "length (filter (\<lambda>e. e = ZapcapGetTask videoId taskId) (new_events w ?w')) = Suc n"
    unfolding ne using evs(3) by simp
  have f: "fs ?w' = fs w"
    by (simp add: console_log_def emit_def fs_poll_iter)
  show ?thesis using r a b c f by blast
qed

text \<open>
  C7. The polling loop has no bound on the number of probes and sleeps the same 2000 ms
  after every pending probe. For every \<open>n\<close>: when the first \<open>n\<close> probes are pending and the
  next one returns a target status, \<open>waitForTaskStatus\<close> returns that status after exactly
  \<open>n + 1\<close> probes, with one sleep of 2000 ms between consecutive probes and none after
  the last. When every probe is pending, the loop never returns: after any number \<open>n\<close> of
  turns it is still running, has made \<open>n\<close> probes and has slept \<open>n\<close> times for 2000 ms.
\<close>

theorem poll_never_returns:
  "(\<forall>n st.
      (\<forall>k<n. pending E videoId taskId targetStatuses ((poll_step E videoId taskId lang ^^ k) w))
      \<and> get_task E ((poll_step E videoId taskId lang ^^ n) w) videoId taskId = Inr st
      \<and> status st \<in> set targetStatuses \<longrightarrow>
      (\<exists>w'. waitForTaskStatus E videoId taskId targetStatuses lang w = Some (Inr st, w')
         \<and> filter probe_or_sleep (new_events w w')
             = concat (replicate n [ZapcapGetTask videoId taskId, Sleep 2000])
               @ [ZapcapGetTask videoId taskId]
         \<and> sleep_durations (new_events w w') = replicate n 2000
         \<and> length (filter (\<lambda>e. e = ZapcapGetTask videoId taskId) (new_events w w')) = Suc n
         \<and> fs w' = fs w))
   \<and> ((\<forall>n. pending E videoId taskId targetStatuses ((poll_step E videoId taskId lang ^^ n) w)) \<longrightarrow>
        waitForTaskStatus E videoId taskId targetStatuses lang w = None
      \<and> (\<forall>n. waitForTaskStatus E videoId taskId targetStatuses lang w
                = waitForTaskStatus E videoId taskId targetStatuses lang
                    ((poll_step E videoId taskId lang ^^ n) w)
              \<and> sleep_durations (new_events w ((poll_step E videoId taskId lang ^^ n) w))
                  = replicate n 2000
              \<and> length (filter (\<lambda>e. e = ZapcapGetTask videoId taskId)
                          (new_events w ((poll_step E videoId taskId lang ^^ n) w))) = n))"
proof (intro conjI allI impI)
  fix n st
  assume a: "(\<forall>k<n. pending E videoId taskId targetStatuses ((poll_step E videoId taskId lang ^^ k) w))
      \<and> get_task E ((poll_step E videoId taskId lang ^^ n) w) videoId taskId = Inr st
      \<and> status st \<in> set targetStatuses"
  then show "\<exists>w'. waitForTaskStatus E videoId taskId targetStatuses lang w = Some (Inr st, w')
         \<and> filter probe_or_sleep (new_events w w')
             = concat (replicate n [ZapcapGetTask videoId taskId, Sleep 2000])
               @ [ZapcapGetTask videoId taskId]
         \<and> sleep_durations (new_events w w') = replicate n 2000
         \<and> length (filter (\<lambda>e. e = ZapcapGetTask videoId taskId) (new_events w w')) = Suc n
         \<and> fs w' = fs w"
    using poll_target_returns[of n E videoId taskId targetStatuses lang w st] by blast
next
  assume p: "\<forall>n. pending E videoId taskId targetStatuses ((poll_step E videoId taskId lang ^^ n) w)"
  show "waitForTaskStatus E videoId taskId targetStatuses lang w = None"
    using poll_forever_None[OF p, where n=0] by simp
next
  fix n
  assume p: "\<forall>n. pending E videoId taskId targetStatuses ((poll_step E videoId taskId lang ^^ n) w)"
  show "waitForTaskStatus E videoId taskId targetStatuses lang w
                = waitForTaskStatus E videoId taskId targetStatuses lang
                    ((poll_step E videoId taskId lang ^^ n) w)"
    using p by (intro poll_iter) simp
next
  fix n
  show "sleep_durations (new_events w ((poll_step E videoId taskId lang ^^ n) w)) = replicate n 2000"
    using poll_iter_trace[where E=E and v=videoId and t=taskId and l=lang and n=n and w=w]
    by (auto simp: new_events_def)
next
  fix n
  show "length (filter (\<lambda>e. e = ZapcapGetTask videoId taskId)
                          (new_events w ((poll_step E videoId taskId lang ^^ n) w))) = n"
    using poll_iter_trace[where E=E and v=videoId and t=taskId and l=lang and n=n and w=w]
    by (auto simp: new_events_def)
qed

lemma stuck_env_pending: "pending stuck_env v t [''completed''] w"
  by (simp add: pending_def stuck_env_def offline_env_def)

lemma completing_job_env_get_task:
  "get_task completing_job_env w v t =
     Inr (if trace w = []
             then \<lparr>status = ''rendering'', error = None, downloadUrl = None, transcript = None\<rparr>
             else \<lparr>status = ''completed'', error = None, downloadUrl = Some ''https://cdn/out.mp4'',
                   transcript = None\<rparr>)"
  by (simp add: completing_job_env_def offline_env_def)

theorem poll_never_returns_witness:
  "pending completing_job_env ''vid'' ''task'' [''completed''] world0
   \<and> get_task completing_job_env
        ((poll_step completing_job_env ''vid'' ''task'' ''ENGLISH'' ^^ Suc 0) world0) ''vid'' ''task''
       = Inr \<lparr>status = ''completed'', error = None, downloadUrl = Some ''https://cdn/out.mp4'',
              transcript = None\<rparr>
   \<and> fst (the (waitForTaskStatus completing_job_env ''vid'' ''task'' [''completed''] ''ENGLISH''
                  world0))
       = Inr \<lparr>status = ''completed'', error = None, downloadUrl = Some ''https://cdn/out.mp4'',
              transcript = None\<rparr>
   \<and> filter probe_or_sleep
        (new_events world0
           (snd (the (waitForTaskStatus completing_job_env ''vid'' ''task'' [''completed'']
                        ''ENGLISH'' world0))))
       = [ZapcapGetTask ''vid'' ''task'', Sleep 2000, ZapcapGetTask ''vid'' ''task'']
   \<and> (\<forall>n. pending stuck_env ''vid'' ''task'' [''completed'']
          ((poll_step stuck_env ''vid'' ''task'' ''ENGLISH'' ^^ n) world0))
   \<and> waitForTaskStatus stuck_env ''vid'' ''task'' [''completed''] ''ENGLISH'' world0 = None
   \<and> sleep_durations (new_events world0
         ((poll_step stuck_env ''vid'' ''task'' ''ENGLISH'' ^^ 3) world0)) = [2000, 2000, 2000]"
proof -
  let ?st = "\<lparr>status = ''completed'', error = None, downloadUrl = Some ''https://cdn/out.mp4'',
              transcript = None\<rparr>"
  have p0: "pending completing_job_env ''vid'' ''task'' [''completed''] world0"
    by (simp add: pending_def completing_job_env_get_task world0_def)
  have h1: "\<forall>k<Suc 0. pending completing_job_env ''vid'' ''task'' [''completed'']
               ((poll_step completing_job_env ''vid'' ''task'' ''ENGLISH'' ^^ k) world0)"
    using p0 by simp
  have h2: "get_task completing_job_env
        ((poll_step completing_job_env ''vid'' ''task'' ''ENGLISH'' ^^ Suc 0) world0) ''vid'' ''task''
       = Inr ?st"
    by (simp add: completing_job_env_get_task trace_poll_step)
  have h3: "status ?st \<in> set [''completed'']" by simp
  from poll_never_returns[where E = completing_job_env and videoId = "''vid''"
      and taskId = "''task''" and targetStatuses = "[''completed'']" and lang = "''ENGLISH''"
      and w = world0]
  have "(\<forall>k<Suc 0. pending completing_job_env ''vid'' ''task'' [''completed'']
               ((poll_step completing_job_env ''vid'' ''task'' ''ENGLISH'' ^^ k) world0))
      \<and> get_task completing_job_env
          ((poll_step completing_job_env ''vid'' ''task'' ''ENGLISH'' ^^ Suc 0) world0) ''vid'' ''task''
         = Inr ?st
      \<and> status ?st \<in> set [''completed''] \<longrightarrow>
      (\<exists>w'. waitForTaskStatus completing_job_env ''vid'' ''task'' [''completed''] ''ENGLISH'' world0
               = Some (Inr ?st, w')
         \<and> filter probe_or_sleep (new_events world0 w')
             = concat (replicate (Suc 0) [ZapcapGetTask ''vid'' ''task'', Sleep 2000])
               @ [ZapcapGetTask ''vid'' ''task''])"
    by blast
  with h1 h2 h3 obtain w' where
    r: "waitForTaskStatus completing_job_env ''vid'' ''task'' [''completed''] ''ENGLISH'' world0
               = Some (Inr ?st, w')"
    and f: "filter probe_or_sleep (new_events world0 w')
             = concat (replicate (Suc 0) [ZapcapGetTask ''vid'' ''task'', Sleep 2000])
               @ [ZapcapGetTask ''vid'' ''task'']"
    by blast
  have s: "\<forall>n. pending stuck_env ''vid'' ''task'' [''completed'']
          ((poll_step stuck_env ''vid'' ''task'' ''ENGLISH'' ^^ n) world0)"
    by (simp add: stuck_env_pending)
  from poll_never_returns[where E = stuck_env and videoId = "''vid''"
      and taskId = "''task''" and targetStatuses = "[''completed'']" and lang = "''ENGLISH''"
      and w = world0] s
  have a: "waitForTaskStatus stuck_env ''vid'' ''task'' [''completed''] ''ENGLISH'' world0 = None"
    and b: "sleep_durations (new_events world0
         ((poll_step stuck_env ''vid'' ''task'' ''ENGLISH'' ^^ 3) world0)) = replicate 3 2000"
    by blast+
  show ?thesis using p0 h2 r f s a b by (simp add: numeral_3_eq_3)
qed

lemma failing_job_env_get_task:
  "get_task failing_job_env w v t =
     Inr (if trace w = []
             then \<lparr>status = ''transcribing'', error = None, downloadUrl = None, transcript = None\<rparr>
             else \<lparr>status = ''failed'', error = Some ''audio track missing'', downloadUrl = None,
                   transcript = None\<rparr>)"
  by (simp add: failing_job_env_def offline_env_def)

theorem poll_failed_aborts_witness:
  "pending failing_job_env ''vid'' ''task'' [''completed''] world0
   \<and> get_task failing_job_env
        ((poll_step failing_job_env ''vid'' ''task'' ''ENGLISH'' ^^ Suc 0) world0) ''vid'' ''task''
       = Inr \<lparr>status = ''failed'', error = Some ''audio track missing'', downloadUrl = None,
              transcript = None\<rparr>
   \<and> ''failed'' \<notin> set [''completed'']
   \<and> fst (the (waitForTaskStatus failing_job_env ''vid'' ''task'' [''completed''] ''ENGLISH'' world0))
       = Inl (new_Error ''Zapcap task failed: audio track missing'')
   \<and> length (filter (\<lambda>e. e = ZapcapGetTask ''vid'' ''task'')
        (new_events world0
           (snd (the (waitForTaskStatus failing_job_env ''vid'' ''task'' [''completed''] ''ENGLISH''
                        world0))))) = 2"
proof -
  let ?st = "\<lparr>status = ''failed'', error = Some ''audio track missing'', downloadUrl = None,
              transcript = None\<rparr>"
  have p0: "pending failing_job_env ''vid'' ''task'' [''completed''] world0"
    by (simp add: pending_def failing_job_env_get_task world0_def)
  have h1: "\<forall>k<Suc 0. pending failing_job_env ''vid'' ''task'' [''completed'']
               ((poll_step failing_job_env ''vid'' ''task'' ''ENGLISH'' ^^ k) world0)"
    using p0 by simp
  have h2: "get_task failing_job_env
        ((poll_step failing_job_env ''vid'' ''task'' ''ENGLISH'' ^^ Suc 0) world0) ''vid'' ''task''
       = Inr ?st"
    by (simp add: failing_job_env_get_task trace_poll_step)
  have h3: "status ?st = ''failed''" by simp
  have h4: "''failed'' \<notin> set [''completed'']" by simp
  from poll_failed_aborts[OF h1 h2 h3 h4] obtain w' where
    r: "waitForTaskStatus failing_job_env ''vid'' ''task'' [''completed''] ''ENGLISH'' world0
           = Some (Inl (new_Error (''Zapcap task failed: ''
                          @ (case error ?st of None \<Rightarrow> ''unknown error'' | Some r \<Rightarrow> r))), w')"
    and c: "length (filter (\<lambda>e. e = ZapcapGetTask ''vid'' ''task'') (new_events world0 w')) = Suc (Suc 0)"
    by blast
  show ?thesis using p0 h2 h4 r c by simp
qed

section \<open>The retry loop\<close>

lemma uploadVideo_world:
  "snd (uploadVideo E videoPath w) = emit (ZapcapPostVideo videoPath) w"
  by (simp add: uploadVideo_def Let_def split: sum.splits)

lemma attempt_body_upload_fails:
  assumes "post_videos E w (sourceVideoPath p) = Inl e"
  shows "attempt_body S E p w = Some (Inl e, emit (ZapcapPostVideo (sourceVideoPath p)) w)"
  using assms by (simp add: attempt_body_def uploadVideo_def and_then_def)

lemma createCaptionTask_unsupported:
  assumes "languageToZapcapCode (toUpperCase E lang) = None"
  shows "createCaptionTask S E videoId lang w
           = (Inl (new_Error (''Unsupported caption language: '' @ lang)), w)"
  using assms by (simp add: createCaptionTask_def truthy_def)

lemma attempt_body_unsupported:
  assumes "languageToZapcapCode (toUpperCase E (language p)) = None"
  shows "\<exists>e. attempt_body S E p w = Some (Inl e, emit (ZapcapPostVideo (sourceVideoPath p)) w)
           \<and> (\<not> isl (fst (uploadVideo E (sourceVideoPath p) w)) \<longrightarrow>
                 e = new_Error (''Unsupported caption language: '' @ language p))"
proof (cases "fst (uploadVideo E (sourceVideoPath p) w)")
  case (Inl e)
  then have "uploadVideo E (sourceVideoPath p) w = (Inl e, emit (ZapcapPostVideo (sourceVideoPath p)) w)"
    using uploadVideo_world[of E "sourceVideoPath p" w] by (simp add: prod_eq_iff)
  then show ?thesis using Inl by (simp add: attempt_body_def and_then_def)
next
  case (Inr videoId)
  then have "uploadVideo E (sourceVideoPath p) w
               = (Inr videoId, emit (ZapcapPostVideo (sourceVideoPath p)) w)"
    using uploadVideo_world[of E "sourceVideoPath p" w] by (simp add: prod_eq_iff)
  then show ?thesis
    by (simp add: attempt_body_def and_then_def createCaptionTask_unsupported[OF assms])
qed

lemma String_lastError_new_Error:
  "m \<noteq> [] \<Longrightarrow> String_lastError (Some (new_Error m)) = ''Error: '' @ m"
  by (simp add: String_lastError_def String_error_def new_Error_def)

lemma retry_loop_upload_only:
  assumes H: "\<And>w'. \<exists>e. attempt_body S E p w'
                        = Some (Inl e, emit (ZapcapPostVideo (sourceVideoPath p)) w') \<and> Q e"
  shows "n = nat (maxRetryAttempts S + 1 - k) \<Longrightarrow>
         \<exists>es w'. retry_loop S E p k le w
             = Some (Inl (new_Error (''Failed to create captioned video after retries: ''
                        @ String_lastError (if es = [] then le else Some (last es)))), w')
           \<and> length es = n
           \<and> trace w' = trace w @ failed_attempts_trace (sourceVideoPath p) (language p)
                                     (maxRetryAttempts S) k es
           \<and> fs w' = fs w
           \<and> (\<forall>e\<in>set es. Q e)"
proof (induction n arbitrary: k le w)
  case 0
  then have "\<not> k \<le> maxRetryAttempts S" by simp
  then have "retry_loop S E p k le w
      = Some (Inl (new_Error (''Failed to create captioned video after retries: ''
                     @ String_lastError le)), w)"
    by (subst retry_loop.simps) simp
  then show ?case by (intro exI[of _ "[]"] exI[of _ w]) simp
next
  case (Suc n)
  then have k: "k \<le> maxRetryAttempts S" and n: "n = nat (maxRetryAttempts S + 1 - (k + 1))"
    by simp_all
  from H[of w] obtain e where
    e: "attempt_body S E p w = Some (Inl e, emit (ZapcapPostVideo (sourceVideoPath p)) w)" and q: "Q e"
    by blast
  define msg where "msg = ''[captions] Attempt '' @ String_int k @ '' failed for '' @ language p @ '':''"
  define w2 where "w2 = (if k < maxRetryAttempts S then sleep (2000 * k) else (\<lambda>x. x))
                  (console_error msg e (emit (ZapcapPostVideo (sourceVideoPath p)) w))"
  have step: "retry_loop S E p k le w = retry_loop S E p (k + 1) (Some e) w2"
    using k e unfolding w2_def msg_def by (subst retry_loop.simps) simp
  have t2: "trace w2 = trace w @ [ZapcapPostVideo (sourceVideoPath p), ConsoleError msg e]
                         @ (if k < maxRetryAttempts S then [Sleep (2000 * k)] else [])"
    and f2: "fs w2 = fs w"
    by (simp_all add: w2_def sleep_def console_error_def emit_def)
  from Suc.IH[OF n, of "Some e" w2] obtain es w' where
    r: "retry_loop S E p (k + 1) (Some e) w2
             = Some (Inl (new_Error (''Failed to create captioned video after retries: ''
                        @ String_lastError (if es = [] then Some e else Some (last es)))), w')"
    and l: "length es = n"
    and t: "trace w' = trace w2 @ failed_attempts_trace (sourceVideoPath p) (language p)
                                     (maxRetryAttempts S) (k + 1) es"
    and f: "fs w' = fs w2"
    and qs: "\<forall>e\<in>set es. Q e"
    by blast
  have r': "retry_loop S E p k le w
             = Some (Inl (new_Error (''Failed to create captioned video after retries: ''
                        @ String_lastError (if e # es = [] then le else Some (last (e # es))))), w')"
    using step r by simp
  have t': "trace w' = trace w @ failed_attempts_trace (sourceVideoPath p) (language p)
                                     (maxRetryAttempts S) k (e # es)"
    unfolding t t2 msg_def by simp
  show ?case
    using r' l t' f f2 q qs by (intro exI[of _ "e # es"] exI[of _ w']) simp
qed

lemma failed_attempts_uploads:
  "length (filter (\<lambda>e. e = ZapcapPostVideo src) (failed_attempts_trace src lang m k es)) = length es"
  by (induction es arbitrary: k) simp_all

lemma failed_attempts_sleeps:
  "length es = nat (m + 1 - k) \<Longrightarrow>
   sleep_durations (failed_attempts_trace src lang m k es) = map (\<lambda>j. 2000 * j) [k..m - 1]"
proof (induction es arbitrary: k)
  case Nil
  then show ?case by simp
next
  case (Cons e es)
  then have k: "k \<le> m" and l: "length es = nat (m + 1 - (k + 1))" by simp_all
  show ?case
  proof (cases "k < m")
    case True
    then have "[k..m - 1] = k # [k + 1..m - 1]" by (simp add: upto_rec1)
    then show ?thesis using True Cons.IH[OF l] by (simp add: sleep_durations_append)
  next
    case False
    with k have "k = m" by simp
    then show ?thesis using Cons.IH[OF l] by (simp add: sleep_durations_append)
  qed
qed

lemma failed_attempts_no_task:
  "ZapcapPostTask v t c \<notin> set (failed_attempts_trace src lang m k es)"
  by (induction es arbitrary: k) simp_all

lemma backoff_increasing: "sorted_wrt (<) (map (\<lambda>j. 2000 * j) [k..(m::int)])"
  by (simp add: sorted_wrt_map sorted_wrt_mono_rel[OF _ sorted_wrt_upto])

text \<open>
  C3. When a file exists at \<open>outputPath\<close>, \<open>createCaptionedVideo\<close> returns \<open>outputPath\<close>
  after the existence check and one console line; no request is sent.
\<close>

theorem existing_output_returned_without_remote_calls:
  assumes "fs w (outputPath params) \<noteq> None"
  shows "createCaptionedVideo S E params w
           = Some (Inr (outputPath params),
                   w\<lparr>trace := trace w @ [FsAccess (outputPath params),
                        ConsoleLog (''[captions] File already exists: '' @ outputPath params)]\<rparr>)
       \<and> filter remote_call
           (new_events w (snd (the (createCaptionedVideo S E params w)))) = []"
  using assms
  by (simp add: createCaptionedVideo_def fileExists_def console_log_def emit_def new_events_def)

text \<open>
  C4. When no file exists at \<open>outputPath\<close> and the upload request fails whenever it is
  made, \<open>createCaptionedVideo\<close> makes exactly \<open>maxRetryAttempts\<close> attempts (one upload
  each), sleeps \<open>2000 * attempt\<close> ms after every failed attempt but the last, so the delays
  are 2000, 4000, ... in strictly increasing order, and then throws one error whose
  message embeds \<open>String\<close> of the error of the last attempt.
\<close>

theorem retries_exhausted_when_upload_always_fails:
  assumes "fs w (outputPath params) = None"
      and "\<forall>w'. isl (post_videos E w' (sourceVideoPath params))"
  shows "\<exists>es w'.
      createCaptionedVideo S E params w
        = Some (Inl (new_Error (''Failed to create captioned video after retries: ''
                       @ String_lastError (if es = [] then None else Some (last es)))), w')
    \<and> length es = nat (maxRetryAttempts S)
    \<and> (\<forall>e\<in>set es. \<exists>w''. post_videos E w'' (sourceVideoPath params) = Inl e)
    \<and> new_events w w'
        = FsAccess (outputPath params)
          # failed_attempts_trace (sourceVideoPath params) (language params) (maxRetryAttempts S) 1 es
    \<and> length (filter (\<lambda>e. e = ZapcapPostVideo (sourceVideoPath params)) (new_events w w'))
        = nat (maxRetryAttempts S)
    \<and> sleep_durations (new_events w w') = map (\<lambda>k. 2000 * k) [1..maxRetryAttempts S - 1]
    \<and> sorted_wrt (<) (sleep_durations (new_events w w'))
    \<and> fs w' = fs w"
proof -
  let ?w1 = "emit (FsAccess (outputPath params)) w"
  have H: "\<exists>e. attempt_body S E params w'
                  = Some (Inl e, emit (ZapcapPostVideo (sourceVideoPath params)) w')
              \<and> (\<exists>w''. post_videos E w'' (sourceVideoPath params) = Inl e)" for w'
  proof -
    from assms(2) obtain e where e: "post_videos E w' (sourceVideoPath params) = Inl e"
      by (metis isl_def)
    from attempt_body_upload_fails[OF e] e show ?thesis by blast
  qed
  have start: "createCaptionedVideo S E params w = retry_loop S E params 1 None ?w1"
    using assms(1) by (simp add: createCaptionedVideo_def fileExists_def)
  from retry_loop_upload_only[where Q = "\<lambda>e. \<exists>w''. post_videos E w'' (sourceVideoPath params) = Inl e",
        OF H, of "nat (maxRetryAttempts S)" 1 None ?w1]
  obtain es w' where
    r: "retry_loop S E params 1 None ?w1
             = Some (Inl (new_Error (''Failed to create captioned video after retries: ''
                        @ String_lastError (if es = [] then None else Some (last es)))), w')"
    and l: "length es = nat (maxRetryAttempts S)"
    and t: "trace w' = trace ?w1 @ failed_attempts_trace (sourceVideoPath params) (language params)
                                     (maxRetryAttempts S) 1 es"
    and f: "fs w' = fs ?w1"
    and q: "\<forall>e\<in>set es. \<exists>w''. post_videos E w'' (sourceVideoPath params) = Inl e"
    by auto
  have ne: "new_events w w'
        = FsAccess (outputPath params)
          # failed_attempts_trace (sourceVideoPath params) (language params) (maxRetryAttempts S) 1 es"
    by (simp add: new_events_def t emit_def)
  have up: "length (filter (\<lambda>e. e = ZapcapPostVideo (sourceVideoPath params)) (new_events w w'))
        = nat (maxRetryAttempts S)"
    by (simp add: ne failed_attempts_uploads l)
  have sl: "sleep_durations (new_events w w') = map (\<lambda>k. 2000 * k) [1..maxRetryAttempts S - 1]"
    using failed_attempts_sleeps[of es "maxRetryAttempts S" 1] l by (simp add: ne)
  have inc: "sorted_wrt (<) (sleep_durations (new_events w w'))"
    unfolding sl by (rule backoff_increasing)
  have f': "fs w' = fs w" using f by (simp add: emit_def)
  show ?thesis using start r l q ne up sl inc f' by (intro exI[of _ es] exI[of _ w']) simp
qed

text \<open>
  C9 (as amended). For a language whose upper-cased name has no entry in
  \<open>languageToZapcapCode\<close>, \<open>createCaptionTask\<close> throws "Unsupported caption language: ..."
  without sending the task request (the world is unchanged). The error is not handled as
  a fatal one: the retry loop catches it like any other error, sleeps \<open>2000 * attempt\<close> ms
  and starts a new attempt with a new upload, \<open>maxRetryAttempts\<close> uploads in all and never
  a task request. Every run of \<open>createCaptionedVideo\<close> for that language whose output
  does not exist yet ends with the aggregated error; when the uploads succeed (and at
  least one attempt is made) that error embeds the unsupported-language error.
\<close>

theorem unsupported_language_fails_before_request:
  assumes "languageToZapcapCode (toUpperCase E lang) = None"
  shows "createCaptionTask S E videoId lang w
           = (Inl (new_Error (''Unsupported caption language: '' @ lang)), w)
       \<and> (\<forall>params. language params = lang \<and> fs w (outputPath params) = None \<longrightarrow>
            (\<exists>e w'. createCaptionedVideo S E params w = Some (Inl e, w')
                  \<and> (\<forall>v t c. ZapcapPostTask v t c \<notin> set (new_events w w'))
                  \<and> length (filter (\<lambda>e. e = ZapcapPostVideo (sourceVideoPath params))
                              (new_events w w')) = nat (maxRetryAttempts S)
                  \<and> sleep_durations (new_events w w')
                      = map (\<lambda>k. 2000 * k) [1..maxRetryAttempts S - 1]
                  \<and> fs w' = fs w
                  \<and> (1 \<le> maxRetryAttempts S
                       \<and> (\<forall>w''. \<not> isl (fst (uploadVideo E (sourceVideoPath params) w''))) \<longrightarrow>
                       e = new_Error (''Failed to create captioned video after retries: ''
                             @ ''Error: '' @ ''Unsupported caption language: '' @ lang))))"
proof (intro conjI allI impI)
  show "createCaptionTask S E videoId lang w
           = (Inl (new_Error (''Unsupported caption language: '' @ lang)), w)"
    using assms by (rule createCaptionTask_unsupported)
next
  fix params :: CreateCaptionedVideoParams
  assume a: "language params = lang \<and> fs w (outputPath params) = None"
  let ?w1 = "emit (FsAccess (outputPath params)) w"
  let ?ok = "\<forall>w''. \<not> isl (fst (uploadVideo E (sourceVideoPath params) w''))"
  let ?cause = "new_Error (''Unsupported caption language: '' @ lang)"
  have H: "\<exists>e. attempt_body S E params w'
                  = Some (Inl e, emit (ZapcapPostVideo (sourceVideoPath params)) w')
              \<and> (?ok \<longrightarrow> e = ?cause)" for w'
    using attempt_body_unsupported[of E params S w'] assms a by auto
  have start: "createCaptionedVideo S E params w = retry_loop S E params 1 None ?w1"
    using a by (simp add: createCaptionedVideo_def fileExists_def)
  from retry_loop_upload_only[where Q = "\<lambda>e. ?ok \<longrightarrow> e = ?cause", OF H,
        of "nat (maxRetryAttempts S)" 1 None ?w1]
  obtain es w' where
    r: "retry_loop S E params 1 None ?w1
             = Some (Inl (new_Error (''Failed to create captioned video after retries: ''
                        @ String_lastError (if es = [] then None else Some (last es)))), w')"
    and l: "length es = nat (maxRetryAttempts S)"
    and t: "trace w' = trace ?w1 @ failed_attempts_trace (sourceVideoPath params) (language params)
                                     (maxRetryAttempts S) 1 es"
    and f: "fs w' = fs ?w1"
    and q: "\<forall>e\<in>set es. ?ok \<longrightarrow> e = ?cause"
    by auto
  have ne: "new_events w w'
        = FsAccess (outputPath params)
          # failed_attempts_trace (sourceVideoPath params) (language params) (maxRetryAttempts S) 1 es"
    by (simp add: new_events_def t emit_def)
  have up: "length (filter (\<lambda>e. e = ZapcapPostVideo (sourceVideoPath params)) (new_events w w'))
        = nat (maxRetryAttempts S)"
    by (simp add: ne failed_attempts_uploads l)
  have sl: "sleep_durations (new_events w w') = map (\<lambda>k. 2000 * k) [1..maxRetryAttempts S - 1]"
    using failed_attempts_sleeps[of es "maxRetryAttempts S" 1] l by (simp add: ne)
  have nt: "\<forall>v t c. ZapcapPostTask v t c \<notin> set (new_events w w')"
    by (simp add: ne failed_attempts_no_task)
  have fw: "fs w' = fs w" using f by (simp add: emit_def)
  let ?err = "new_Error (''Failed to create captioned video after retries: ''
                @ String_lastError (if es = [] then None else Some (last es)))"
  have res: "createCaptionedVideo S E params w = Some (Inl ?err, w')"
    using start r by simp
  have tie: "?err = new_Error (''Failed to create captioned video after retries: ''
                             @ ''Error: '' @ ''Unsupported caption language: '' @ lang)"
    if m: "1 \<le> maxRetryAttempts S \<and> ?ok"
  proof -
    from m l have ne: "es \<noteq> []" by auto
    then have "last es \<in> set es" by simp
    with q m have "last es = ?cause" by blast
    then show ?thesis using ne by (simp add: String_lastError_new_Error)
  qed
  show "\<exists>e w'. createCaptionedVideo S E params w = Some (Inl e, w')
                  \<and> (\<forall>v t c. ZapcapPostTask v t c \<notin> set (new_events w w'))
                  \<and> length (filter (\<lambda>e. e = ZapcapPostVideo (sourceVideoPath params))
                              (new_events w w')) = nat (maxRetryAttempts S)
                  \<and> sleep_durations (new_events w w')
                      = map (\<lambda>k. 2000 * k) [1..maxRetryAttempts S - 1]
                  \<and> fs w' = fs w
                  \<and> (1 \<le> maxRetryAttempts S
                       \<and> (\<forall>w''. \<not> isl (fst (uploadVideo E (sourceVideoPath params) w''))) \<longrightarrow>
                       e = new_Error (''Failed to create captioned video after retries: ''
                             @ ''Error: '' @ ''Unsupported caption language: '' @ lang))"
    using res nt up sl fw tie by (intro exI[of _ ?err] exI[of _ w'] conjI impI)
qed

theorem existing_output_returned_without_remote_calls_witness:
  "fs downloaded_world (outputPath params0) \<noteq> None
   \<and> createCaptionedVideo service0 offline_env params0 downloaded_world
       = Some (Inr ''/out/captioned_EN.mp4'',
               \<lparr>fs = [''/out/captioned_EN.mp4'' \<mapsto> ''original bytes''],
                trace = [FsAccess ''/out/captioned_EN.mp4'',
                         ConsoleLog ''[captions] File already exists: /out/captioned_EN.mp4'']\<rparr>)"
proof -
  have h: "fs downloaded_world (outputPath params0) \<noteq> None"
    by (simp add: downloaded_world_def params0_def)
  show ?thesis
    using existing_output_returned_without_remote_calls[OF h, of service0 offline_env] h
    by (simp add: downloaded_world_def params0_def)
qed

theorem retries_exhausted_when_upload_always_fails_witness:
  "fs world0 (outputPath params0) = None
   \<and> (\<forall>w'. isl (post_videos offline_env w' (sourceVideoPath params0)))
   \<and> fst (the (createCaptionedVideo service0 offline_env params0 world0))
       = Inl (new_Error
           ''Failed to create captioned video after retries: AxiosError: Network Error'')
   \<and> length (filter (\<lambda>e. e = ZapcapPostVideo ''/in/rendered_EN.mp4'')
        (new_events world0 (snd (the (createCaptionedVideo service0 offline_env params0 world0)))))
       = 3
   \<and> sleep_durations
        (new_events world0 (snd (the (createCaptionedVideo service0 offline_env params0 world0))))
       = [2000, 4000]"
proof -
  have h1: "fs world0 (outputPath params0) = None" by (simp add: world0_def)
  have h2: "\<forall>w'. isl (post_videos offline_env w' (sourceVideoPath params0))"
    by (simp add: offline_env_def)
  from retries_exhausted_when_upload_always_fails[OF h1 h2, of service0] obtain es w' where
    r: "createCaptionedVideo service0 offline_env params0 world0
        = Some (Inl (new_Error (''Failed to create captioned video after retries: ''
                       @ String_lastError (if es = [] then None else Some (last es)))), w')"
    and l: "length es = nat (maxRetryAttempts service0)"
    and q: "\<forall>e\<in>set es. \<exists>w''. post_videos offline_env w'' (sourceVideoPath params0) = Inl e"
    and u: "length (filter (\<lambda>e. e = ZapcapPostVideo (sourceVideoPath params0)) (new_events world0 w'))
        = nat (maxRetryAttempts service0)"
    and s: "sleep_durations (new_events world0 w')
        = map (\<lambda>k. 2000 * k) [1..maxRetryAttempts service0 - 1]"
    by blast
  have m: "maxRetryAttempts service0 = 3" by (simp add: service0_def)
  have ne: "es \<noteq> []" using l m by auto
  then have "last es \<in> set es" by simp
  with q obtain w'' where "post_videos offline_env w'' (sourceVideoPath params0) = Inl (last es)"
    by blast
  then have le: "last es = JsError ''AxiosError'' ''Network Error''"
    by (simp add: offline_env_def)
  have msg: "String_lastError (if es = [] then None else Some (last es)) = ''AxiosError: Network Error''"
    using ne le by (simp add: String_lastError_def String_error_def)
  have src: "sourceVideoPath params0 = ''/in/rendered_EN.mp4''" by (simp add: params0_def)
  have sl: "map (\<lambda>k. 2000 * k) [1..maxRetryAttempts service0 - 1] = [2000, 4000 :: int]"
    by (simp add: m upto_rec1)
  show ?thesis using h1 h2 r msg u s sl m src by simp
qed

lemma klingon_unmapped: "languageToZapcapCode (toUpperCase uploading_env ''Klingon'') = None"
  by (simp add: uploading_env_def offline_env_def ascii_upper_def upper_char_def
      languageToZapcapCode_def languageToZapcapCode_table_def)

lemma uploading_env_upload:
  "uploadVideo uploading_env p w = (Inr ''vid'', emit (ZapcapPostVideo p) w)"
  by (simp add: uploadVideo_def uploading_env_def offline_env_def truthy_def)

lemma klingon_attempt:
  "attempt_body service0 uploading_env klingon_params w
     = Some (Inl (new_Error ''Unsupported caption language: Klingon''),
             emit (ZapcapPostVideo ''/in/rendered_KL.mp4'') w)"
proof -
  have "createCaptionTask service0 uploading_env ''vid'' ''Klingon'' w'
          = (Inl (new_Error (''Unsupported caption language: '' @ ''Klingon'')), w')" for w'
    using klingon_unmapped by (rule createCaptionTask_unsupported)
  then show ?thesis
    by (simp add: attempt_body_def and_then_def uploading_env_upload klingon_params_def)
qed

theorem unsupported_language_fails_before_request_witness:
  "languageToZapcapCode (toUpperCase uploading_env ''Klingon'') = None
   \<and> createCaptionTask service0 uploading_env ''vid'' ''Klingon'' world0
       = (Inl (new_Error ''Unsupported caption language: Klingon''), world0)
   \<and> fst (the (createCaptionedVideo service0 uploading_env klingon_params world0))
       = Inl (new_Error
           ''Failed to create captioned video after retries: Error: Unsupported caption language: Klingon'')
   \<and> sleep_durations
        (new_events world0 (snd (the (createCaptionedVideo service0 uploading_env klingon_params
                                        world0))))
       = [2000, 4000]"
proof -
  note h = klingon_unmapped
  from unsupported_language_fails_before_request[OF h, of service0 "''vid''" world0]
  have a: "createCaptionTask service0 uploading_env ''vid'' ''Klingon'' world0
       = (Inl (new_Error (''Unsupported caption language: '' @ ''Klingon'')), world0)"
    and b: "\<forall>params. language params = ''Klingon'' \<and> fs world0 (outputPath params) = None \<longrightarrow>
            (\<exists>e w'. createCaptionedVideo service0 uploading_env params world0 = Some (Inl e, w')
                  \<and> sleep_durations (new_events world0 w')
                      = map (\<lambda>k. 2000 * k) [1..maxRetryAttempts service0 - 1]
                  \<and> (1 \<le> maxRetryAttempts service0
                       \<and> (\<forall>w''. \<not> isl (fst (uploadVideo uploading_env (sourceVideoPath params) w''))) \<longrightarrow>
                       e = new_Error (''Failed to create captioned video after retries: ''
                             @ ''Error: '' @ ''Unsupported caption language: '' @ ''Klingon'')))"
    by blast+
  have "language klingon_params = ''Klingon'' \<and> fs world0 (outputPath klingon_params) = None"
    by (simp add: world0_def klingon_params_def)
  with b obtain e w' where
    r: "createCaptionedVideo service0 uploading_env klingon_params world0 = Some (Inl e, w')"
    and s: "sleep_durations (new_events world0 w')
              = map (\<lambda>k. 2000 * k) [1..maxRetryAttempts service0 - 1]"
    and tie: "1 \<le> maxRetryAttempts service0
                \<and> (\<forall>w''. \<not> isl (fst (uploadVideo uploading_env (sourceVideoPath klingon_params) w''))) \<longrightarrow>
              e = new_Error (''Failed to create captioned video after retries: ''
                             @ ''Error: '' @ ''Unsupported caption language: '' @ ''Klingon'')"
    by blast
  have m: "maxRetryAttempts service0 = 3" by (simp add: service0_def)
  have ok: "\<forall>w''. \<not> isl (fst (uploadVideo uploading_env (sourceVideoPath klingon_params) w''))"
    by (simp add: uploading_env_upload)
  have e: "e = new_Error
           ''Failed to create captioned video after retries: Error: Unsupported caption language: Klingon''"
    using tie m ok by simp
  have sl: "map (\<lambda>k. 2000 * k) [1..maxRetryAttempts service0 - 1] = [2000, 4000 :: int]"
    by (simp add: m upto_rec1)
  show ?thesis using h a r e s sl by simp
qed

lemma retry_step_failed:
  "attempt \<le> maxRetryAttempts S \<Longrightarrow> attempt_body S E params w = Some (Inl err, w1) \<Longrightarrow>
   retry_loop S E params attempt lastError w
     = retry_loop S E params (attempt + 1) (Some err)
         ((if attempt < maxRetryAttempts S then sleep (2000 * attempt) else (\<lambda>x. x))
            (console_error
               (''[captions] Attempt '' @ String_int attempt @ '' failed for ''
                  @ language params @ '':'') err w1))"
  by (subst retry_loop.simps) simp

lemma retry_done:
  "\<not> attempt \<le> maxRetryAttempts S \<Longrightarrow>
   retry_loop S E params attempt lastError w
     = Some (Inl (new_Error (''Failed to create captioned video after retries: ''
                        @ String_lastError lastError)), w)"
  by (subst retry_loop.simps) simp

text \<open>
  C9 as stated fails: the unsupported-language error does not end the work for the
  language. With uploads that succeed and three attempts allowed, the run uploads three
  times and sleeps 2000 ms and 4000 ms after the first two occurrences of the error.
\<close>

theorem unsupported_language_is_retried_counterexample:
  "languageToZapcapCode (toUpperCase uploading_env ''Klingon'') = None
   \<and> new_events world0
        (snd (the (createCaptionedVideo service0 uploading_env klingon_params world0)))
       = [FsAccess ''/out/captioned_KL.mp4'',
          ZapcapPostVideo ''/in/rendered_KL.mp4'',
          ConsoleError ''[captions] Attempt 1 failed for Klingon:''
            (new_Error ''Unsupported caption language: Klingon''),
          Sleep 2000,
          ZapcapPostVideo ''/in/rendered_KL.mp4'',
          ConsoleError ''[captions] Attempt 2 failed for Klingon:''
            (new_Error ''Unsupported caption language: Klingon''),
          Sleep 4000,
          ZapcapPostVideo ''/in/rendered_KL.mp4'',
          ConsoleError ''[captions] Attempt 3 failed for Klingon:''
            (new_Error ''Unsupported caption language: Klingon'')]"
proof -
  have m: "maxRetryAttempts service0 = 3" by (simp add: service0_def)
  have lang: "language klingon_params = ''Klingon''" by (simp add: klingon_params_def)
  have s1: "String_int 1 = ''1''" "String_int 2 = ''2''" "String_int 3 = ''3''"
    by (simp_all add: String_int_def digits.simps)
  let ?e = "new_Error ''Unsupported caption language: Klingon''"
  let ?w0 = "emit (FsAccess ''/out/captioned_KL.mp4'') world0"
  let ?w1 = "sleep 2000 (console_error ''[captions] Attempt 1 failed for Klingon:'' ?e
               (emit (ZapcapPostVideo ''/in/rendered_KL.mp4'') ?w0))"
  let ?w2 = "sleep 4000 (console_error ''[captions] Attempt 2 failed for Klingon:'' ?e
               (emit (ZapcapPostVideo ''/in/rendered_KL.mp4'') ?w1))"
  let ?w3 = "console_error ''[captions] Attempt 3 failed for Klingon:'' ?e
               (emit (ZapcapPostVideo ''/in/rendered_KL.mp4'') ?w2)"
  have start: "createCaptionedVideo service0 uploading_env klingon_params world0
                 = retry_loop service0 uploading_env klingon_params 1 None ?w0"
    by (simp add: createCaptionedVideo_def fileExists_def world0_def klingon_params_def)
  have a1: "retry_loop service0 uploading_env klingon_params 1 None ?w0
              = retry_loop service0 uploading_env klingon_params 2 (Some ?e) ?w1"
    using retry_step_failed[of 1 service0 uploading_env klingon_params ?w0 ?e _ None]
      klingon_attempt[of ?w0] by (simp add: m lang s1)
  have a2: "retry_loop service0 uploading_env klingon_params 2 (Some ?e) ?w1
              = retry_loop service0 uploading_env klingon_params 3 (Some ?e) ?w2"
    using retry_step_failed[of 2 service0 uploading_env klingon_params ?w1 ?e _ "Some ?e"]
      klingon_attempt[of ?w1] by (simp add: m lang s1)
  have a3: "retry_loop service0 uploading_env klingon_params 3 (Some ?e) ?w2
              = retry_loop service0 uploading_env klingon_params 4 (Some ?e) ?w3"
    using retry_step_failed[of 3 service0 uploading_env klingon_params ?w2 ?e _ "Some ?e"]
      klingon_attempt[of ?w2] by (simp add: m lang s1)
  have a4: "retry_loop service0 uploading_env klingon_params 4 (Some ?e) ?w3
              = Some (Inl (new_Error (''Failed to create captioned video after retries: ''
                        @ String_lastError (Some ?e))), ?w3)"
    using retry_done[of 4 service0 uploading_env klingon_params "Some ?e" ?w3] by (simp add: m)
  have r: "snd (the (createCaptionedVideo service0 uploading_env klingon_params world0)) = ?w3"
    by (simp add: start a1 a2 a3 a4)
  show ?thesis
    unfolding r using klingon_unmapped
    by (simp add: new_events_def sleep_def console_error_def emit_def world0_def)
qed

end
